theory Spec2Isabelle
  imports Complex_Main "HOL-Library.AList"
begin

section \<open>Python values of the model\<close>

text \<open>
  A Python \<^verbatim>\<open>dict\<close> with string keys is an association list in insertion order:
  \<^verbatim>\<open>d[k] = v\<close> is \<open>AList.update k v d\<close> (an existing key keeps its place, a new key
  goes to the end), \<^verbatim>\<open>d.get(k, dflt)\<close> is \<open>dict_get d k dflt\<close>. Python floats are
  idealised as real numbers. Strings are byte strings, so only ASCII text is
  represented.
\<close>

type_synonym 'v dict = "(string \<times> 'v) list"

definition dict_get :: "'v dict \<Rightarrow> string \<Rightarrow> 'v \<Rightarrow> 'v" where
  "dict_get d k dflt = (case map_of d k of None \<Rightarrow> dflt | Some v \<Rightarrow> v)"

text \<open>Exceptions are values; \<open>message\<close> is Python's \<^verbatim>\<open>str(e)\<close>.\<close>

datatype py_error = KeyError string | ZeroDivisionError | Exception string

fun message :: "py_error \<Rightarrow> string" where
  "message (KeyError k) = [CHR 0x27] @ k @ [CHR 0x27]"
| "message ZeroDivisionError = ''division by zero''"
| "message (Exception msg) = msg"

subsection \<open>String methods\<close>

definition endswith :: "string \<Rightarrow> string \<Rightarrow> bool" where
  "endswith s ext = (length ext \<le> length s \<and> drop (length s - length ext) s = ext)"

definition startswith :: "string \<Rightarrow> string \<Rightarrow> bool" where
  "startswith s p = (take (length p) s = p)"

text \<open>\<^verbatim>\<open>s.count('\n')\<close>\<close>

definition count_newlines :: "string \<Rightarrow> nat" where
  "count_newlines s = length (filter (\<lambda>c. c = CHR 0x0A) s)"

text \<open>The ASCII characters for which \<^verbatim>\<open>str.isspace\<close> holds, which are those \<^verbatim>\<open>\s\<close> matches.\<close>

definition is_space :: "char \<Rightarrow> bool" where
  "is_space c =
     (c \<in> set [CHR 0x09, CHR 0x0A, CHR 0x0B, CHR 0x0C, CHR 0x0D,
               CHR 0x1C, CHR 0x1D, CHR 0x1E, CHR 0x1F, CHR 0x20])"

definition strip :: "string \<Rightarrow> string" where
  "strip s = rev (dropWhile is_space (rev (dropWhile is_space s)))"

text \<open>\<^verbatim>\<open>s.lower()\<close> on ASCII.\<close>

definition lower_char :: "char \<Rightarrow> char" where
  "lower_char c =
     (case map_of (zip ''ABCDEFGHIJKLMNOPQRSTUVWXYZ'' ''abcdefghijklmnopqrstuvwxyz'') c of
        None \<Rightarrow> c
      | Some l \<Rightarrow> l)"

definition lower :: "string \<Rightarrow> string" where
  "lower s = map lower_char s"

text \<open>\<^verbatim>\<open>s.split('\n')\<close> and \<^verbatim>\<open>'\n'.join(ls)\<close>\<close>

fun split_lines :: "string \<Rightarrow> string list" where
  "split_lines [] = [[]]"
| "split_lines (c # cs) =
     (if c = CHR 0x0A then [] # split_lines cs
      else (case split_lines cs of
              [] \<Rightarrow> [[c]]
            | l # ls \<Rightarrow> (c # l) # ls))"

fun join_lines :: "string list \<Rightarrow> string" where
  "join_lines [] = []"
| "join_lines [l] = l"
| "join_lines (l # ls) = l @ CHR 0x0A # join_lines ls"

text \<open>
  \<^verbatim>\<open>os.path.splitext\<close> with \<^verbatim>\<open>/\<close> as separator: the extension starts at the last dot of
  the last path component, unless only dots come before it there.
\<close>

definition splitext :: "string \<Rightarrow> string \<times> string" where
  "splitext p =
     (let base = rev (takeWhile (\<lambda>c. c \<noteq> CHR ''/'') (rev p));
          tail = rev (takeWhile (\<lambda>c. c \<noteq> CHR ''.'') (rev base));
          stem = take (length base - length tail - 1) base
      in if CHR ''.'' \<in> set base \<and> list_ex (\<lambda>c. c \<noteq> CHR ''.'') stem
         then (take (length p - length tail - 1) p, CHR ''.'' # tail)
         else (p, []))"

subsection \<open>Built-in functions\<close>

text \<open>\<^verbatim>\<open>max(xs, key=...)\<close>: the first of the greatest elements, nothing for no elements.\<close>

fun max_by :: "('a \<Rightarrow> 'k::linorder) \<Rightarrow> 'a \<Rightarrow> 'a list \<Rightarrow> 'a" where
  "max_by key best [] = best"
| "max_by key best (x # xs) = (if key best < key x then max_by key x xs else max_by key best xs)"

definition py_max :: "('a \<Rightarrow> 'k::linorder) \<Rightarrow> 'a list \<Rightarrow> 'a option" where
  "py_max key xs = (case xs of [] \<Rightarrow> None | x # rest \<Rightarrow> Some (max_by key x rest))"

text \<open>\<^verbatim>\<open>round(x, 2)\<close> on the exact value: to the nearest hundredth, a tie to the even one.\<close>

definition py_round2 :: "real \<Rightarrow> real" where
  "py_round2 x =
     (let y = x * 100; f = \<lfloor>y\<rfloor>; d = y - of_int f
      in (if d < 1 / 2 then of_int f
          else if 1 / 2 < d then of_int (f + 1)
          else if even f then of_int f else of_int (f + 1)) / 100)"

section \<open>duplication_analyzer.py: DuplicationAnalyzer\<close>

text \<open>The two attributes set by the constructor.\<close>

record dup_config =
  min_block_size :: nat
  ignore_whitespace :: bool

text \<open>
  \<^verbatim>\<open>re.sub(r'//.*|#.*|<!--.*?-->', '', line)\<close>, scanning from the left. \<open>comment_end s\<close>
  is the length of the shortest prefix of \<open>s\<close> that ends with \<^verbatim>\<open>-->\<close> and holds no
  newline; \<open>remove_comments skip s\<close> drops the next \<open>skip\<close> characters, which belong to
  a match already found, and goes on.
\<close>

fun comment_end :: "string \<Rightarrow> nat option" where
  "comment_end [] = None"
| "comment_end (c # cs) =
     (if startswith (c # cs) ''-->'' then Some 3
      else if c = CHR 0x0A then None
      else map_option Suc (comment_end cs))"

fun remove_comments :: "nat \<Rightarrow> string \<Rightarrow> string" where
  "remove_comments skip [] = []"
| "remove_comments (Suc skip) (c # cs) = remove_comments skip cs"
| "remove_comments 0 (c # cs) =
     (if startswith (c # cs) ''//'' \<or> c = CHR ''#'' then
        remove_comments (length (takeWhile (\<lambda>x. x \<noteq> CHR 0x0A) cs)) cs
      else if startswith (c # cs) ''<!--'' then
        (case comment_end (drop 3 cs) of
           Some n \<Rightarrow> remove_comments (3 + n) cs
         | None \<Rightarrow> c # remove_comments 0 cs)
      else c # remove_comments 0 cs)"

text \<open>\<^verbatim>\<open>re.sub(r'\s+', ' ', s)\<close>; \<open>in_run\<close> says that the run of spaces is already replaced.\<close>

fun collapse_spaces :: "bool \<Rightarrow> string \<Rightarrow> string" where
  "collapse_spaces in_run [] = []"
| "collapse_spaces in_run (c # cs) =
     (if is_space c then
        (if in_run then collapse_spaces True cs else CHR 0x20 # collapse_spaces True cs)
      else c # collapse_spaces False cs)"

definition normalize_line :: "dup_config \<Rightarrow> string \<Rightarrow> string" where
  "normalize_line cfg line =
     (let line1 = remove_comments 0 line
      in if ignore_whitespace cfg then collapse_spaces False (strip line1) else line1)"

record block =
  hash :: string
  content :: string
  original_content :: string
  file_path :: string
  start_line :: nat
  end_line :: nat
  block_size :: nat

text \<open>
  The digest \<^verbatim>\<open>hashlib.md5(block_content.encode()).hexdigest()\<close> is the parameter
  \<open>md5\<close>: blocks are only ever compared by it. \<^verbatim>\<open>encode\<close> raises on text that UTF-8
  cannot encode, so the digest returns a string or an exception.

  \<open>block_at\<close> is one round of the outer loop of \<^verbatim>\<open>extract_blocks\<close>, for the window
  that starts at line \<open>i\<close>: the block, or nothing when fewer than \<^verbatim>\<open>min_block_size\<close>
  lines of the window are left after normalisation.
\<close>

definition block_at ::
  "(string \<Rightarrow> py_error + string) \<Rightarrow> dup_config \<Rightarrow> string list \<Rightarrow> string \<Rightarrow> nat
     \<Rightarrow> py_error + block list" where
  "block_at md5 cfg lines path i =
     (let kept = filter (\<lambda>(line, normalized). strip normalized \<noteq> [])
                   (map (\<lambda>line. (line, normalize_line cfg line))
                      (take (min_block_size cfg) (drop i lines)));
          block_lines = map snd kept;
          original_lines = map fst kept
      in if min_block_size cfg \<le> length block_lines then
           (let block_content = join_lines block_lines
            in case md5 block_content of
                 Inl e \<Rightarrow> Inl e
               | Inr block_hash \<Rightarrow>
                   Inr [\<lparr>hash = block_hash,
                         content = block_content,
                         original_content = join_lines original_lines,
                         file_path = path,
                         start_line = i + 1,
                         end_line = i + min_block_size cfg,
                         block_size = length block_lines\<rparr>])
         else Inr [])"

fun extract_from ::
  "(string \<Rightarrow> py_error + string) \<Rightarrow> dup_config \<Rightarrow> string list \<Rightarrow> string \<Rightarrow> nat list
     \<Rightarrow> py_error + block list" where
  "extract_from md5 cfg lines path [] = Inr []"
| "extract_from md5 cfg lines path (i # rest) =
     (case block_at md5 cfg lines path i of
        Inl e \<Rightarrow> Inl e
      | Inr found \<Rightarrow>
          (case extract_from md5 cfg lines path rest of
             Inl e \<Rightarrow> Inl e
           | Inr later \<Rightarrow> Inr (found @ later)))"

text \<open>\<^verbatim>\<open>range(len(lines) - self.min_block_size + 1)\<close> is empty when the file is too short.\<close>

definition extract_blocks ::
  "(string \<Rightarrow> py_error + string) \<Rightarrow> dup_config \<Rightarrow> string \<Rightarrow> string \<Rightarrow> py_error + block list" where
  "extract_blocks md5 cfg text path =
     (let lines = split_lines text
      in extract_from md5 cfg lines path [0 ..< length lines + 1 - min_block_size cfg])"

record duplicate_info =
  occurrences :: nat
  blocks :: "block list"
  dup_size :: nat
  content_preview :: string

text \<open>\<^verbatim>\<open>blocks_by_hash[block['hash']].append(block)\<close> on a \<^verbatim>\<open>defaultdict(list)\<close>\<close>

definition add_block :: "(block list) dict \<Rightarrow> block \<Rightarrow> (block list) dict" where
  "add_block blocks_by_hash b =
     AList.update (hash b) (dict_get blocks_by_hash (hash b) [] @ [b]) blocks_by_hash"

text \<open>The first loop of \<^verbatim>\<open>find_duplicates\<close>; a file of blank text is passed over.\<close>

fun group_blocks ::
  "(string \<Rightarrow> py_error + string) \<Rightarrow> dup_config \<Rightarrow> string dict \<Rightarrow> (block list) dict
     \<Rightarrow> py_error + (block list) dict" where
  "group_blocks md5 cfg [] blocks_by_hash = Inr blocks_by_hash"
| "group_blocks md5 cfg ((path, text) # files) blocks_by_hash =
     (if strip text = [] then group_blocks md5 cfg files blocks_by_hash
      else
        (case extract_blocks md5 cfg text path of
           Inl e \<Rightarrow> Inl e
         | Inr file_blocks \<Rightarrow>
             group_blocks md5 cfg files (foldl add_block blocks_by_hash file_blocks)))"

definition preview :: "string \<Rightarrow> string" where
  "preview c = (if 200 < length c then take 200 c @ ''...'' else c)"

text \<open>
  The second loop, over the groups, carrying \<^verbatim>\<open>duplicates\<close>,
  \<^verbatim>\<open>total_duplicated_lines\<close> and the set \<^verbatim>\<open>files_with_duplicates\<close>.
\<close>

fun scan_groups ::
  "(block list) dict \<Rightarrow> duplicate_info dict \<times> nat \<times> string set
     \<Rightarrow> duplicate_info dict \<times> nat \<times> string set" where
  "scan_groups [] acc = acc"
| "scan_groups ((block_hash, []) # rest) acc = scan_groups rest acc"
| "scan_groups ((block_hash, b # bs) # rest) (duplicates, total_duplicated_lines, files_with_duplicates) =
     (if 1 < length (b # bs) then
        scan_groups rest
          (AList.update block_hash
             \<lparr>occurrences = length (b # bs),
              blocks = b # bs,
              dup_size = block_size b,
              content_preview = preview (content b)\<rparr>
             duplicates,
           total_duplicated_lines + block_size b * (length (b # bs) - 1),
           files_with_duplicates \<union> set (map file_path (b # bs)))
      else scan_groups rest (duplicates, total_duplicated_lines, files_with_duplicates))"

text \<open>\<^verbatim>\<open>file_duplication_stats[block['file_path']] += duplicate_info['size']\<close>\<close>

definition add_stat :: "nat \<Rightarrow> nat dict \<Rightarrow> block \<Rightarrow> nat dict" where
  "add_stat n stats b = AList.update (file_path b) (dict_get stats (file_path b) 0 + n) stats"

definition file_duplication_stats :: "duplicate_info dict \<Rightarrow> nat dict" where
  "file_duplication_stats duplicates =
     foldl (\<lambda>stats (block_hash, duplicate_info).
              foldl (add_stat (dup_size duplicate_info)) stats (blocks duplicate_info))
       [] duplicates"

text \<open>
  \<^verbatim>\<open>_generate_summary\<close> formats a level, the number of clusters and the number of
  affected files into one line; the model keeps the three values.
\<close>

datatype dup_level = Excelente | Bueno | Moderado | Alto

datatype dup_summary = Summary dup_level nat nat | ErrorSummary

definition generate_summary :: "duplicate_info dict \<Rightarrow> real \<Rightarrow> nat \<Rightarrow> dup_summary" where
  "generate_summary duplicates percentage affected_files =
     Summary
       (if percentage < 5 then Excelente
        else if percentage < 15 then Bueno
        else if percentage < 25 then Moderado
        else Alto)
       (length duplicates) affected_files"

text \<open>
  The report. \<^verbatim>\<open>archivos_afectados\<close> is \<^verbatim>\<open>list(files_with_duplicates)\<close>, a list in no
  determined order, kept as the set. \<^verbatim>\<open>mayor_duplicacion\<close> is the pair of
  \<^verbatim>\<open>archivo\<close> and \<^verbatim>\<open>porcentaje\<close>. \<open>error\<close> is present in the report of the
  \<^verbatim>\<open>except\<close> clause only.
\<close>

record report =
  porcentaje_global :: real
  bloques_encontrados :: nat
  total_ocurrencias :: nat
  lineas_duplicadas :: nat
  archivos_afectados :: "string set"
  total_archivos :: nat
  mayor_duplicacion :: "(string \<times> real) option"
  duplicates_details :: "duplicate_info dict"
  summary_line :: dup_summary
  error :: "string option"

definition find_duplicates ::
  "(string \<Rightarrow> py_error + string) \<Rightarrow> dup_config \<Rightarrow> string dict \<Rightarrow> py_error + report" where
  "find_duplicates md5 cfg files_content =
     (case group_blocks md5 cfg files_content [] of
        Inl e \<Rightarrow> Inl e
      | Inr blocks_by_hash \<Rightarrow>
          (case scan_groups blocks_by_hash ([], 0, {}) of
             (duplicates, total_duplicated_lines, files_with_duplicates) \<Rightarrow>
               (let total_lines = sum_list (map (\<lambda>(path, text). length (split_lines text)) files_content);
                    duplication_percentage =
                      real total_duplicated_lines / real (max total_lines 1) * 100;
                    most_duplicated_file = py_max snd (file_duplication_stats duplicates)
                in case (case most_duplicated_file of
                           None \<Rightarrow> Inr None
                         | Some (path, n) \<Rightarrow>
                             (case map_of files_content path of
                                None \<Rightarrow> Inl (KeyError path)
                              | Some text \<Rightarrow>
                                  Inr (Some (path,
                                    py_round2 (real n / real (max (length (split_lines text)) 1) * 100))))) of
                     Inl e \<Rightarrow> Inl e
                   | Inr mayor \<Rightarrow>
                       Inr \<lparr>porcentaje_global = py_round2 duplication_percentage,
                            bloques_encontrados = length duplicates,
                            total_ocurrencias = sum_list (map (\<lambda>(h, dup). occurrences dup) duplicates),
                            lineas_duplicadas = total_duplicated_lines,
                            archivos_afectados = files_with_duplicates,
                            total_archivos = length files_content,
                            mayor_duplicacion = mayor,
                            duplicates_details = duplicates,
                            summary_line =
                              generate_summary duplicates duplication_percentage (card files_with_duplicates),
                            error = None\<rparr>)))"

text \<open>The \<^verbatim>\<open>try\<close> around \<^verbatim>\<open>find_duplicates\<close>: a report comes back in either case.\<close>

definition analyze_repository_files ::
  "(string \<Rightarrow> py_error + string) \<Rightarrow> dup_config \<Rightarrow> string dict \<Rightarrow> report" where
  "analyze_repository_files md5 cfg files_content =
     (case find_duplicates md5 cfg files_content of
        Inr r \<Rightarrow> r
      | Inl e \<Rightarrow>
          \<lparr>porcentaje_global = 0,
           bloques_encontrados = 0,
           total_ocurrencias = 0,
           lineas_duplicadas = 0,
           archivos_afectados = {},
           total_archivos = length files_content,
           mayor_duplicacion = None,
           duplicates_details = [],
           summary_line = ErrorSummary,
           error = Some (message e)\<rparr>)"

section \<open>language_analyzers/base.py: LanguageAnalyzer\<close>

type_synonym leaf_metrics = "real dict"
type_synonym category_metrics = "leaf_metrics dict"

text \<open>\<^verbatim>\<open>m.get(category, {}).get(leaf, 0)\<close>\<close>

definition read_leaf :: "category_metrics \<Rightarrow> string \<Rightarrow> string \<Rightarrow> real" where
  "read_leaf m category leaf = dict_get (dict_get m category []) leaf 0"

text \<open>
  The three abstract methods of the class. \<open>analyze_file\<close> returns the per-file
  metrics or raises.
\<close>

record analyzer =
  get_file_extensions :: "string list"
  get_language_name :: string
  analyze_file :: "string \<Rightarrow> string \<Rightarrow> py_error + category_metrics"

text \<open>The attributes of an instance.\<close>

record analyzer_state =
  metrics :: category_metrics
  total_files :: nat
  total_lines :: nat

text \<open>\<^verbatim>\<open>__init__\<close>\<close>

definition init_state :: analyzer_state where
  "init_state =
     \<lparr>metrics =
        [(''nombres'', []), (''documentacion'', []), (''modularidad'', []),
         (''complejidad'', []), (''manejo_errores'', []), (''pruebas'', []),
         (''seguridad'', []), (''consistencia_estilo'', [])],
      total_files = 0,
      total_lines = 0\<rparr>"

definition should_analyze_file :: "analyzer \<Rightarrow> string \<Rightarrow> bool" where
  "should_analyze_file A path = list_ex (endswith path) (get_file_extensions A)"

text \<open>
  The loop of \<^verbatim>\<open>analyze_files\<close>: a file whose path has none of the extensions is
  passed over, a file whose analysis raises is passed over by the
  \<^verbatim>\<open>except\<close> clause, every other file appends its metrics and bumps both counters.
\<close>

fun collect_file_metrics ::
  "analyzer \<Rightarrow> string dict \<Rightarrow> category_metrics list \<times> analyzer_state
     \<Rightarrow> category_metrics list \<times> analyzer_state" where
  "collect_file_metrics A [] acc = acc"
| "collect_file_metrics A ((path, text) # files) (file_metrics, s) =
     (if should_analyze_file A path then
        (case analyze_file A path text of
           Inr m \<Rightarrow>
             collect_file_metrics A files
               (file_metrics @ [m],
                s\<lparr>total_files := total_files s + 1,
                  total_lines := total_lines s + count_newlines text\<rparr>)
         | Inl e \<Rightarrow> collect_file_metrics A files (file_metrics, s))
      else collect_file_metrics A files (file_metrics, s))"

text \<open>
  \<^verbatim>\<open>[m.get(c, {}).get(leaf, 0) for m in file_metrics if m.get(c)]\<close>: a file
  contributes when it has a non-empty mapping for the category.
\<close>

definition leaf_scores :: "string \<Rightarrow> string \<Rightarrow> category_metrics list \<Rightarrow> real list" where
  "leaf_scores category leaf file_metrics =
     map (\<lambda>m. dict_get (dict_get m category []) leaf 0)
       (filter (\<lambda>m. dict_get m category [] \<noteq> []) file_metrics)"

text \<open>\<^verbatim>\<open>self.metrics[category][leaf] = v\<close>, a KeyError when the category is absent.\<close>

definition set_leaf ::
  "category_metrics \<Rightarrow> string \<Rightarrow> string \<Rightarrow> real \<Rightarrow> py_error + category_metrics" where
  "set_leaf ms category leaf v =
     (case map_of ms category of
        None \<Rightarrow> Inl (KeyError category)
      | Some d \<Rightarrow> Inr (AList.update category (AList.update leaf v d) ms))"

text \<open>One of the eight blocks of \<^verbatim>\<open>aggregate_metrics\<close>.\<close>

definition aggregate_leaf ::
  "category_metrics list \<Rightarrow> string \<Rightarrow> string \<Rightarrow> string \<Rightarrow> category_metrics
     \<Rightarrow> py_error + category_metrics" where
  "aggregate_leaf file_metrics category leaf target ms =
     (let scores = leaf_scores category leaf file_metrics
      in if scores \<noteq> [] then set_leaf ms category target (sum_list scores / real (length scores))
         else Inr ms)"

text \<open>
  The eight blocks in the order of the source: the category, the leaf read from each
  file and the leaf written into \<^verbatim>\<open>self.metrics\<close>.
\<close>

definition aggregated_leaves :: "(string \<times> string \<times> string) list" where
  "aggregated_leaves =
     [(''nombres'', ''descriptividad'', ''descriptividad''),
      (''documentacion'', ''cobertura'', ''cobertura_docstrings''),
      (''complejidad'', ''ciclomatica'', ''complejidad_ciclomatica''),
      (''modularidad'', ''funciones'', ''funciones_por_archivo''),
      (''manejo_errores'', ''cobertura'', ''cobertura_manejo_errores''),
      (''pruebas'', ''cobertura'', ''cobertura_pruebas''),
      (''seguridad'', ''validacion'', ''validacion_entradas''),
      (''consistencia_estilo'', ''consistencia'', ''consistencia_nombres'')]"

fun aggregate_steps ::
  "category_metrics list \<Rightarrow> (string \<times> string \<times> string) list \<Rightarrow> category_metrics
     \<Rightarrow> py_error + category_metrics" where
  "aggregate_steps file_metrics [] ms = Inr ms"
| "aggregate_steps file_metrics ((category, leaf, target) # rest) ms =
     (case aggregate_leaf file_metrics category leaf target ms of
        Inl e \<Rightarrow> Inl e
      | Inr ms' \<Rightarrow> aggregate_steps file_metrics rest ms')"

definition aggregate_metrics ::
  "category_metrics list \<Rightarrow> category_metrics \<Rightarrow> py_error + category_metrics" where
  "aggregate_metrics file_metrics ms =
     (if file_metrics = [] then Inr ms
      else aggregate_steps file_metrics aggregated_leaves ms)"

text \<open>
  \<^verbatim>\<open>analyze_files\<close> returns \<^verbatim>\<open>self.metrics\<close> together with the instance as the call
  leaves it. \<^verbatim>\<open>aggregate_metrics\<close> is outside the \<^verbatim>\<open>try\<close>: what it raises ends the
  call.
\<close>

definition analyze_files ::
  "analyzer \<Rightarrow> string dict \<Rightarrow> analyzer_state
     \<Rightarrow> py_error + (category_metrics \<times> analyzer_state)" where
  "analyze_files A files s =
     (case collect_file_metrics A files ([], s) of
        (file_metrics, s1) \<Rightarrow>
          if file_metrics \<noteq> [] then
            (case aggregate_metrics file_metrics (metrics s1) of
               Inl e \<Rightarrow> Inl e
             | Inr ms \<Rightarrow> Inr (ms, s1\<lparr>metrics := ms\<rparr>))
          else Inr (metrics s1, s1))"

definition weights :: "real dict" where
  "weights =
     [(''nombres'', 0.15), (''documentacion'', 0.15), (''modularidad'', 0.15),
      (''complejidad'', 0.15), (''manejo_errores'', 0.10), (''pruebas'', 0.10),
      (''seguridad'', 0.10), (''consistencia_estilo'', 0.10)]"

text \<open>
  What one category appends to \<^verbatim>\<open>scores\<close>: nothing when its mapping is empty,
  else the mean of its leaves times the weight. Every leaf of the model is a number,
  so the \<^verbatim>\<open>isinstance\<close> filter keeps them all.
\<close>

definition category_score :: "category_metrics \<Rightarrow> string \<times> real \<Rightarrow> real list" where
  "category_score ms cw =
     (let category_metrics = dict_get ms (fst cw) []
      in if category_metrics \<noteq> [] then
           (let values = map snd category_metrics
            in if values \<noteq> [] then [sum_list values / real (length values) * snd cw] else [])
         else [])"

definition calculate_empathy_score :: "category_metrics \<Rightarrow> real" where
  "calculate_empathy_score ms =
     (let scores = concat (map (category_score ms) weights)
      in if scores \<noteq> [] then sum_list scores else 0)"

record summary =
  language :: string
  summary_total_files :: nat
  summary_total_lines :: nat
  summary_metrics :: category_metrics
  empathy_score :: real

definition get_summary :: "analyzer \<Rightarrow> analyzer_state \<Rightarrow> summary" where
  "get_summary A s =
     \<lparr>language = get_language_name A,
      summary_total_files = total_files s,
      summary_total_lines = total_lines s,
      summary_metrics = metrics s,
      empathy_score = calculate_empathy_score (metrics s)\<rparr>"

text \<open>\<^verbatim>\<open>analyze_duplication\<close> builds its own \<^verbatim>\<open>DuplicationAnalyzer(5, True)\<close>.\<close>

definition analyze_duplication :: "(string \<Rightarrow> py_error + string) \<Rightarrow> string dict \<Rightarrow> report" where
  "analyze_duplication md5 files_content =
     analyze_repository_files md5 \<lparr>min_block_size = 5, ignore_whitespace = True\<rparr> files_content"

section \<open>language_analyzers/typescript_analyzer.py: TypeScriptAnalyzer\<close>

text \<open>
  The class extends \<^verbatim>\<open>JavaScriptAnalyzer\<close>, which is not part of the sources at hand:
  \<^verbatim>\<open>super().analyze_file\<close> is the parameter \<open>javascript_analyze_file\<close>. What the
  regular expressions count in a text is a parameter too: the six counts that
  \<^verbatim>\<open>_calculate_type_coverage\<close> adds up, and the interfaces, type aliases and enums.
\<close>

record ts_counts =
  params_with_types :: nat
  total_params :: nat
  typed_vars :: nat
  typed_returns :: nat
  count_variables :: nat
  extracted_functions :: nat

record ts_scanner =
  javascript_analyze_file :: "string \<Rightarrow> string \<Rightarrow> py_error + category_metrics"
  type_counts :: "string \<Rightarrow> ts_counts"
  count_interfaces :: "string \<Rightarrow> nat"
  count_type_aliases :: "string \<Rightarrow> nat"
  count_enums :: "string \<Rightarrow> nat"

definition calculate_type_coverage :: "ts_counts \<Rightarrow> real" where
  "calculate_type_coverage n =
     (let total_items = total_params n + count_variables n + extracted_functions n;
          typed_items = params_with_types n + typed_vars n + typed_returns n
      in if 0 < total_items then real typed_items / real total_items else 0)"

text \<open>
  \<^verbatim>\<open>analyze_file\<close>: the assignments \<^verbatim>\<open>metrics['documentacion']['cobertura'] = ...\<close> and
  \<^verbatim>\<open>metrics['seguridad']['validacion'] = ...\<close> raise KeyError when the JavaScript
  metrics lack the category.
\<close>

definition ts_analyze_file :: "ts_scanner \<Rightarrow> string \<Rightarrow> string \<Rightarrow> py_error + category_metrics" where
  "ts_analyze_file sc path text =
     (case javascript_analyze_file sc path text of
        Inl e \<Rightarrow> Inl e
      | Inr metrics0 \<Rightarrow>
          (let type_coverage = calculate_type_coverage (type_counts sc text);
               metrics1 =
                 AList.update ''typescript''
                   [(''type_coverage'', type_coverage),
                    (''interfaces'', real (count_interfaces sc text)),
                    (''type_aliases'', real (count_type_aliases sc text)),
                    (''enums'', real (count_enums sc text))]
                   metrics0
           in case (if 0.7 < type_coverage then
                      set_leaf metrics1 ''documentacion'' ''cobertura''
                        (min 1 (read_leaf metrics1 ''documentacion'' ''cobertura'' + 0.2))
                    else Inr metrics1) of
                Inl e \<Rightarrow> Inl e
              | Inr metrics2 \<Rightarrow>
                  set_leaf metrics2 ''seguridad'' ''validacion''
                    (min 1 (read_leaf metrics2 ''seguridad'' ''validacion'' + type_coverage * 0.2))))"

definition typescript_analyzer :: "ts_scanner \<Rightarrow> analyzer" where
  "typescript_analyzer sc =
     \<lparr>get_file_extensions = [''.ts'', ''.tsx''],
      get_language_name = ''TypeScript'',
      analyze_file = ts_analyze_file sc\<rparr>"

section \<open>language_analyzers/factory.py: AnalyzerFactory\<close>

text \<open>
  The two class attributes \<^verbatim>\<open>_analyzers\<close> and \<^verbatim>\<open>_extension_map\<close>. A registered class
  is the analyzer record; an instance made from it starts in \<open>init_state\<close>.
\<close>

record factory =
  analyzers :: "analyzer dict"
  extension_map :: "string dict"

definition builtin_extension_map :: "string dict" where
  "builtin_extension_map =
     [(''.py'', ''python''), (''.js'', ''javascript''), (''.jsx'', ''javascript''),
      (''.mjs'', ''javascript''), (''.ts'', ''typescript''), (''.tsx'', ''typescript''),
      (''.java'', ''java''), (''.go'', ''go''), (''.cs'', ''csharp''), (''.cpp'', ''cpp''),
      (''.cc'', ''cpp''), (''.cxx'', ''cpp''), (''.hpp'', ''cpp''), (''.h'', ''cpp''),
      (''.hh'', ''cpp''), (''.php'', ''php''), (''.php3'', ''php''), (''.php4'', ''php''),
      (''.php5'', ''php''), (''.phtml'', ''php''), (''.rb'', ''ruby''), (''.rake'', ''ruby''),
      (''.gemspec'', ''ruby''), (''.swift'', ''swift''), (''.html'', ''html''),
      (''.htm'', ''html''), (''.xhtml'', ''html''), (''.css'', ''css''), (''.scss'', ''css''),
      (''.sass'', ''css''), (''.less'', ''css'')]"

text \<open>
  The factory as the module defines it. The analyzer classes other than the TypeScript
  one are not part of the sources at hand: \<open>cls\<close> gives each class by its name.
\<close>

definition builtin_factory :: "(string \<Rightarrow> analyzer) \<Rightarrow> factory" where
  "builtin_factory cls =
     \<lparr>analyzers =
        [(''python'', cls ''PythonAnalyzer''), (''javascript'', cls ''JavaScriptAnalyzer''),
         (''typescript'', cls ''TypeScriptAnalyzer''), (''java'', cls ''JavaAnalyzer''),
         (''go'', cls ''GoAnalyzer''), (''c#'', cls ''CSharpAnalyzer''),
         (''csharp'', cls ''CSharpAnalyzer''), (''c++'', cls ''CppAnalyzer''),
         (''cpp'', cls ''CppAnalyzer''), (''php'', cls ''PHPAnalyzer''),
         (''ruby'', cls ''RubyAnalyzer''), (''swift'', cls ''SwiftAnalyzer''),
         (''html'', cls ''HTMLAnalyzer''), (''css'', cls ''CSSAnalyzer'')],
      extension_map = builtin_extension_map\<rparr>"

definition register_analyzer :: "factory \<Rightarrow> string \<Rightarrow> analyzer \<Rightarrow> factory" where
  "register_analyzer F language_name analyzer_class =
     F\<lparr>analyzers := AList.update (lower language_name) analyzer_class (analyzers F)\<rparr>"

definition get_analyzer :: "factory \<Rightarrow> string \<Rightarrow> analyzer option" where
  "get_analyzer F language_name = map_of (analyzers F) (lower language_name)"

definition get_analyzer_for_file :: "factory \<Rightarrow> string \<Rightarrow> analyzer option" where
  "get_analyzer_for_file F path =
     (let ext = snd (splitext path)
      in case map_of (extension_map F) (lower ext) of
           None \<Rightarrow> None
         | Some language_name \<Rightarrow>
             if language_name \<noteq> [] then get_analyzer F language_name else None)"

text \<open>
  What \<^verbatim>\<open>analyze_multi_language_project\<close> stores for a language. Of the five detector
  reports only the duplication report is kept: the other four detectors are not part
  of the sources at hand, and no report is read by \<^verbatim>\<open>_calculate_aggregate_metrics\<close>.
\<close>

record language_result =
  result_metrics :: category_metrics
  result_summary :: summary
  duplication :: report
  file_count :: nat

text \<open>The value of \<^verbatim>\<open>total_metrics\<close> when it is not the empty mapping.\<close>

record project_totals =
  project_total_files :: nat
  project_total_lines :: nat
  languages_analyzed :: "string list"
  overall_empathy_score :: real

record project_analysis =
  languages :: "language_result dict"
  total_metrics :: "project_totals option"
  primary_language :: "string option"

text \<open>The loop that groups the files by the language name of their analyzer.\<close>

fun group_files :: "factory \<Rightarrow> string dict \<Rightarrow> (string dict) dict \<Rightarrow> (string dict) dict" where
  "group_files F [] language_files = language_files"
| "group_files F ((path, text) # files) language_files =
     (case get_analyzer_for_file F path of
        None \<Rightarrow> group_files F files language_files
      | Some A \<Rightarrow>
          (let language_name = get_language_name A;
               language_files1 =
                 (if language_name \<notin> set (map fst language_files)
                  then AList.update language_name [] language_files
                  else language_files)
           in group_files F files
                (AList.update language_name
                   (AList.update path text (dict_get language_files1 language_name []))
                   language_files1)))"

text \<open>The loop over the languages; each one is analysed by a new instance.\<close>

fun analyze_languages ::
  "(string \<Rightarrow> py_error + string) \<Rightarrow> factory \<Rightarrow> (string dict) dict \<Rightarrow> language_result dict
     \<Rightarrow> py_error + language_result dict" where
  "analyze_languages md5 F [] results = Inr results"
| "analyze_languages md5 F ((language_name, lang_files) # rest) results =
     (case get_analyzer F (lower language_name) of
        None \<Rightarrow> analyze_languages md5 F rest results
      | Some A \<Rightarrow>
          (case analyze_files A lang_files init_state of
             Inl e \<Rightarrow> Inl e
           | Inr (ms, s) \<Rightarrow>
               analyze_languages md5 F rest
                 (AList.update language_name
                    \<lparr>result_metrics = ms,
                     result_summary = get_summary A s,
                     duplication = analyze_duplication md5 lang_files,
                     file_count = length lang_files\<rparr>
                    results)))"

text \<open>
  The loop of \<^verbatim>\<open>_calculate_aggregate_metrics\<close> that adds up \<^verbatim>\<open>weighted_empathy\<close>;
  the division by \<^verbatim>\<open>total_files\<close> raises when that is zero.
\<close>

fun weighted_empathy :: "language_result dict \<Rightarrow> nat \<Rightarrow> real \<Rightarrow> py_error + real" where
  "weighted_empathy [] file_total acc = Inr acc"
| "weighted_empathy ((lang_name, lang_data) # rest) file_total acc =
     (if file_total = 0 then Inl ZeroDivisionError
      else weighted_empathy rest file_total
             (acc + empathy_score (result_summary lang_data)
                      * (real (file_count lang_data) / real file_total)))"

text \<open>The empty mapping returned for no language is \<open>None\<close>.\<close>

definition calculate_aggregate_metrics :: "language_result dict \<Rightarrow> py_error + project_totals option" where
  "calculate_aggregate_metrics language_results =
     (if language_results = [] then Inr None
      else
        (let file_total = sum_list (map (\<lambda>(lang_name, lang_data). file_count lang_data) language_results);
             line_total = sum_list (map (\<lambda>(lang_name, lang_data). summary_total_lines (result_summary lang_data))
                        language_results)
         in case weighted_empathy language_results file_total 0 of
              Inl e \<Rightarrow> Inl e
            | Inr w \<Rightarrow>
                Inr (Some \<lparr>project_total_files = file_total,
                           project_total_lines = line_total,
                           languages_analyzed = map fst language_results,
                           overall_empathy_score = w\<rparr>)))"

definition analyze_multi_language_project ::
  "(string \<Rightarrow> py_error + string) \<Rightarrow> factory \<Rightarrow> string dict \<Rightarrow> py_error + project_analysis" where
  "analyze_multi_language_project md5 F files =
     (let language_files = group_files F files []
      in case analyze_languages md5 F language_files [] of
           Inl e \<Rightarrow> Inl e
         | Inr results \<Rightarrow>
             (case calculate_aggregate_metrics results of
                Inl e \<Rightarrow> Inl e
              | Inr totals \<Rightarrow>
                  Inr \<lparr>languages = results,
                       total_metrics = totals,
                       primary_language =
                         map_option fst
                           (py_max (\<lambda>(language_name, lang_files). length lang_files) language_files)\<rparr>))"

section \<open>Notions used to state the properties\<close>

text \<open>The eight fixed category names.\<close>

definition categories :: "string list" where
  "categories =
     [''nombres'', ''documentacion'', ''modularidad'', ''complejidad'',
      ''manejo_errores'', ''pruebas'', ''seguridad'', ''consistencia_estilo'']"


text \<open>
  The files of a file map that \<^verbatim>\<open>analyze_files\<close> counts: the path has one of the
  extensions and \<^verbatim>\<open>analyze_file\<close> does not raise. \<open>file_results\<close> are the metrics
  collected from them.
\<close>

definition analyzed :: "analyzer \<Rightarrow> string dict \<Rightarrow> string dict" where
  "analyzed A files =
     filter (\<lambda>(path, text). should_analyze_file A path \<and> \<not> isl (analyze_file A path text)) files"

definition file_results :: "analyzer \<Rightarrow> string dict \<Rightarrow> category_metrics list" where
  "file_results A files =
     List.map_filter
       (\<lambda>(path, text).
          if should_analyze_file A path then
            (case analyze_file A path text of Inr m \<Rightarrow> Some m | Inl e \<Rightarrow> None)
          else None)
       files"

definition newline_total :: "string dict \<Rightarrow> nat" where
  "newline_total files = sum_list (map (\<lambda>(path, text). count_newlines text) files)"

text \<open>Each of the eight leaves that \<^verbatim>\<open>aggregate_metrics\<close> reads lies between 0 and 1.\<close>

definition unit_readings :: "category_metrics \<Rightarrow> bool" where
  "unit_readings m =
     list_all (\<lambda>(category, leaf, target). 0 \<le> read_leaf m category leaf \<and> read_leaf m category leaf \<le> 1)
       aggregated_leaves"

text \<open>Every leaf of every category lies between 0 and 1.\<close>

definition unit_leaves :: "category_metrics \<Rightarrow> bool" where
  "unit_leaves ms = list_all (\<lambda>(category, d). list_all (\<lambda>(leaf, v). 0 \<le> v \<and> v \<le> (1::real)) d) ms"

text \<open>Several calls of \<^verbatim>\<open>analyze_files\<close> on one instance, one after the other.\<close>

fun analyze_files_all :: "analyzer \<Rightarrow> string dict list \<Rightarrow> analyzer_state \<Rightarrow> py_error + analyzer_state" where
  "analyze_files_all A [] s = Inr s"
| "analyze_files_all A (files # rest) s =
     (case analyze_files A files s of
        Inl e \<Rightarrow> Inl e
      | Inr (ms, s') \<Rightarrow> analyze_files_all A rest s')"

text \<open>
  The sum over the analysed languages of the empathy score times the file count
  divided by the file count of all languages.
\<close>

definition total_file_count :: "language_result dict \<Rightarrow> nat" where
  "total_file_count results = sum_list (map (\<lambda>(lang_name, lang_data). file_count lang_data) results)"

definition file_weighted_score :: "language_result dict \<Rightarrow> real" where
  "file_weighted_score results =
     sum_list (map (\<lambda>(lang_name, lang_data).
        empathy_score (result_summary lang_data) * real (file_count lang_data) / real (total_file_count results))
       results)"

text \<open>
  The duplicate clusters of the groups of blocks, as a list: every group of two blocks
  or more, with what \<^verbatim>\<open>find_duplicates\<close> records for it.
\<close>

definition info_of :: "block list \<Rightarrow> duplicate_info" where
  "info_of bs =
     \<lparr>occurrences = length bs, blocks = bs, dup_size = block_size (hd bs),
      content_preview = preview (content (hd bs))\<rparr>"

definition clusters :: "(block list) dict \<Rightarrow> duplicate_info dict" where
  "clusters groups =
     map (\<lambda>(h, bs). (h, info_of bs)) (filter (\<lambda>(h, bs). 1 < length bs) groups)"

text \<open>The sum over the clusters of block size times occurrences less one.\<close>

definition cluster_lines :: "duplicate_info dict \<Rightarrow> int" where
  "cluster_lines duplicates =
     sum_list (map (\<lambda>(h, dup). int (dup_size dup) * (int (occurrences dup) - 1)) duplicates)"

definition cluster_files :: "duplicate_info dict \<Rightarrow> string set" where
  "cluster_files duplicates = (\<Union>(h, dup) \<in> set duplicates. file_path ` set (blocks dup))"




text \<open>\<^verbatim>\<open>file_duplication_stats\<close> continued from given statistics.\<close>

definition stats_from :: "nat dict \<Rightarrow> duplicate_info dict \<Rightarrow> nat dict" where
  "stats_from stats duplicates =
     foldl (\<lambda>stats (block_hash, duplicate_info).
              foldl (add_stat (dup_size duplicate_info)) stats (blocks duplicate_info))
       stats duplicates"

text \<open>The paths of the files that the blocks of the groups come from.\<close>

definition group_paths :: "(block list) dict \<Rightarrow> string set" where
  "group_paths groups = (\<Union>(h, bs) \<in> set groups. file_path ` set bs)"

section \<open>Sample inputs\<close>

text \<open>
  An analyzer for \<^verbatim>\<open>.py\<close> and \<^verbatim>\<open>.pyw\<close> files that raises on an empty file and reports
  the same metrics for every other one, and an analyzer that reports ten functions in
  every file.
\<close>

definition sample_analyzer :: analyzer where
  "sample_analyzer =
     \<lparr>get_file_extensions = [''.py'', ''.pyw''],
      get_language_name = ''Python'',
      analyze_file = (\<lambda>path text.
        if text = [] then Inl (Exception ''empty file'')
        else Inr [(''nombres'', [(''descriptividad'', 0.8)]),
                  (''documentacion'', [(''cobertura'', 0.5)]),
                  (''modularidad'', [(''funciones'', 1)]),
                  (''pruebas'', [])])\<rparr>"

definition counting_analyzer :: analyzer where
  "counting_analyzer =
     \<lparr>get_file_extensions = [''.py''],
      get_language_name = ''Python'',
      analyze_file = (\<lambda>path text. Inr [(''modularidad'', [(''funciones'', 10)])])\<rparr>"

definition sample_files :: "string dict" where
  "sample_files =
     [(''a.py'', ''x = 1\<newline>y = 2\<newline>''), (''notes.txt'', ''hello\<newline>''), (''bad.py'', [])]"

definition more_files :: "string dict" where
  "more_files = [(''a.py'', ''x = 1\<newline>y = 2\<newline>''), (''b.pyw'', ''z'')]"

text \<open>
  A TypeScript scanner over a JavaScript analysis that reports a documentation score
  of 0.5 and a security score of 0.3, and that finds \<open>typed\<close> typed parameters among
  \<open>params\<close> parameters and nothing else.
\<close>

definition scanner_with :: "nat \<Rightarrow> nat \<Rightarrow> ts_scanner" where
  "scanner_with typed params =
     \<lparr>javascript_analyze_file = (\<lambda>path text.
        Inr [(''documentacion'', [(''cobertura'', 0.5)]), (''seguridad'', [(''validacion'', 0.3)])]),
      type_counts = (\<lambda>text.
        \<lparr>params_with_types = typed, total_params = params, typed_vars = 0, typed_returns = 0,
         count_variables = 0, extracted_functions = 0\<rparr>),
      count_interfaces = (\<lambda>text. 0),
      count_type_aliases = (\<lambda>text. 0),
      count_enums = (\<lambda>text. 0)\<rparr>"

definition two_language_factory :: factory where
  "two_language_factory =
     \<lparr>analyzers = [(''python'', sample_analyzer), (''typescript'', typescript_analyzer (scanner_with 9 10))],
      extension_map = [(''.py'', ''python''), (''.ts'', ''typescript''), (''.tsx'', ''typescript'')]\<rparr>"

definition project_files :: "string dict" where
  "project_files =
     [(''a.py'', ''x = 1\<newline>''), (''src/app.ts'', ''let n: Number = 1\<newline>''),
      (''README.md'', ''notes''), (''b.py'', ''y = 2\<newline>'')]"

text \<open>
  Two files for the duplication analysis: five lines that occur twice in the longer
  file and once, differently spaced and commented, in the shorter one. The digest of
  the samples is the text itself, which groups the blocks as any digest without
  collisions does; \<open>failing_digest\<close> raises on every text.
\<close>

definition five_lines :: dup_config where
  "five_lines = \<lparr>min_block_size = 5, ignore_whitespace = True\<rparr>"

definition long_file :: string where
  "long_file = ''a = 1\<newline>b = 2\<newline>c = 3\<newline>d = 4\<newline>e = 5\<newline>x = 0\<newline>a = 1\<newline>b = 2\<newline>c = 3\<newline>d = 4\<newline>e = 5''"

definition short_file :: string where
  "short_file = ''a = 1\<newline>  b = 2 # two\<newline>c   =   3\<newline>d = 4\<newline>e = 5''"

definition dup_files :: "string dict" where
  "dup_files = [(''long.py'', long_file), (''short.py'', short_file)]"



definition failing_digest :: "string \<Rightarrow> py_error + string" where
  "failing_digest s = Inl (Exception ''surrogates not allowed'')"

section \<open>Association lists\<close>

lemma keys_update_present:
  "k \<in> fst ` set ms \<Longrightarrow> map fst (AList.update k v ms) = map fst ms"
  by (simp add: update_keys)

lemma update_fresh_append: "k \<notin> set (map fst al) \<Longrightarrow> AList.update k v al = al @ [(k, v)]"
  by (induction al) auto

lemma update_twice: "AList.update k v (AList.update k w al) = AList.update k v al"
  by (induction al) auto

lemma update_nonempty: "AList.update k v al \<noteq> []"
  by (cases al) auto

section \<open>Properties of LanguageAnalyzer\<close>

subsection \<open>The keys of the metrics and the counters\<close>

lemma set_leaf_keys:
  assumes "category \<in> fst ` set ms"
  shows "\<exists>ms'. set_leaf ms category leaf v = Inr ms' \<and> map fst ms' = map fst ms"
proof -
  from assms obtain d where "map_of ms category = Some d"
    by (metis domD dom_map_of_conv_image_fst)
  then show ?thesis
    using assms by (simp add: set_leaf_def keys_update_present)
qed

lemma aggregate_leaf_keys:
  assumes "category \<in> fst ` set ms"
  shows "\<exists>ms'. aggregate_leaf fms category leaf target ms = Inr ms' \<and> map fst ms' = map fst ms"
  using set_leaf_keys [OF assms] by (simp add: aggregate_leaf_def Let_def)

lemma aggregate_steps_keys:
  "\<forall>step \<in> set steps. fst step \<in> fst ` set ms \<Longrightarrow>
   \<exists>ms'. aggregate_steps fms steps ms = Inr ms' \<and> map fst ms' = map fst ms"
proof (induction steps arbitrary: ms)
  case Nil
  then show ?case by simp
next
  case (Cons step steps)
  obtain c l t where step: "step = (c, l, t)" by (cases step) auto
  from Cons.prems step have "c \<in> fst ` set ms" by simp
  from aggregate_leaf_keys [OF this] obtain ms1 where
    ms1: "aggregate_leaf fms c l t ms = Inr ms1" "map fst ms1 = map fst ms" by blast
  have "fst ` set ms1 = fst ` set ms" using ms1(2) by (metis list.set_map)
  with Cons.prems have "\<forall>step \<in> set steps. fst step \<in> fst ` set ms1" by simp
  from Cons.IH [OF this] obtain ms2 where
    "aggregate_steps fms steps ms1 = Inr ms2" "map fst ms2 = map fst ms1" by blast
  with ms1 step show ?case by simp
qed

lemma aggregate_metrics_keys:
  assumes "map fst ms = categories"
  shows "\<exists>ms'. aggregate_metrics fms ms = Inr ms' \<and> map fst ms' = categories"
proof (cases "fms = []")
  case True
  with assms show ?thesis by (simp add: aggregate_metrics_def)
next
  case False
  have "fst ` set ms = set categories" using assms by (metis list.set_map)
  then have "\<forall>step \<in> set aggregated_leaves. fst step \<in> fst ` set ms"
    by (simp add: aggregated_leaves_def categories_def)
  from aggregate_steps_keys [OF this, of fms] False assms show ?thesis
    by (auto simp: aggregate_metrics_def)
qed

lemma collect_metrics_unchanged:
  "metrics (snd (collect_file_metrics A files (fms, s))) = metrics s"
  by (induction A files "(fms, s)" arbitrary: fms s rule: collect_file_metrics.induct)
     (auto split: sum.splits)

lemma collect_total_files:
  "total_files (snd (collect_file_metrics A files (fms, s))) = total_files s + length (analyzed A files)"
  by (induction A files "(fms, s)" arbitrary: fms s rule: collect_file_metrics.induct)
     (auto simp: analyzed_def split: sum.splits)

lemma collect_total_lines:
  "total_lines (snd (collect_file_metrics A files (fms, s))) =
     total_lines s + sum_list (map (\<lambda>(path, text). count_newlines text) (analyzed A files))"
  by (induction A files "(fms, s)" arbitrary: fms s rule: collect_file_metrics.induct)
     (auto simp: analyzed_def split: sum.splits)

lemma collect_fst:
  "fst (collect_file_metrics A files (fms, s)) = fms @ file_results A files"
  by (induction A files "(fms, s)" arbitrary: fms s rule: collect_file_metrics.induct)
     (auto simp: file_results_def map_filter_simps split: sum.splits)

lemma analyze_files_returns:
  assumes "map fst (metrics s) = categories"
  shows "\<exists>ms s'. analyze_files A files s = Inr (ms, s') \<and> ms = metrics s' \<and>
           map fst (metrics s') = categories \<and>
           total_files s' = total_files s + length (analyzed A files) \<and>
           total_lines s' = total_lines s + sum_list (map (\<lambda>(path, text). count_newlines text) (analyzed A files))"
proof -
  obtain fms s1 where c: "collect_file_metrics A files ([], s) = (fms, s1)"
    by (cases "collect_file_metrics A files ([], s)") auto
  have m: "metrics s1 = metrics s"
    using collect_metrics_unchanged [of A files "[]" s] c by simp
  have tf: "total_files s1 = total_files s + length (analyzed A files)"
    using collect_total_files [of A files "[]" s] c by simp
  have tl: "total_lines s1 = total_lines s + sum_list (map (\<lambda>(path, text). count_newlines text) (analyzed A files))"
    using collect_total_lines [of A files "[]" s] c by simp
  from aggregate_metrics_keys [of "metrics s1" fms] assms m obtain ms' where
    ms': "aggregate_metrics fms (metrics s1) = Inr ms'" "map fst ms' = categories" by auto
  show ?thesis
    using c m tf tl ms' assms by (simp add: analyze_files_def)
qed

lemma init_keys: "map fst (metrics init_state) = categories"
  by (simp add: init_state_def categories_def)


lemma analyze_files_all_keys:
  "map fst (metrics s) = categories \<Longrightarrow>
   \<exists>s'. analyze_files_all A fss s = Inr s' \<and> map fst (metrics s') = categories"
proof (induction fss arbitrary: s)
  case Nil
  then show ?case by simp
next
  case (Cons files fss)
  from analyze_files_returns [OF Cons.prems, of A files] obtain ms s1 where
    s1: "analyze_files A files s = Inr (ms, s1)" "map fst (metrics s1) = categories" by blast
  from Cons.IH [OF s1(2)] s1(1) show ?case by simp
qed

text \<open>
  Claim C9. On a freshly constructed analyzer, \<^verbatim>\<open>analyze_files({})\<close> raises nothing and
  returns the mapping in which each of the eight categories is the empty mapping; the
  instance is left as constructed, and \<^verbatim>\<open>calculate_empathy_score\<close> on it is 0.0.
\<close>

theorem analyze_files_empty_input:
  "analyze_files A [] init_state = Inr (map (\<lambda>c. (c, [])) categories, init_state) \<and>
   calculate_empathy_score (metrics init_state) = 0"
  by (simp add: analyze_files_def init_state_def categories_def calculate_empathy_score_def
        category_score_def weights_def dict_get_def)

text \<open>
  Claim C6. Whatever the analyzer and whatever file maps the instance has analysed
  before, \<^verbatim>\<open>analyze_files\<close> on any file map returns, and the keys of the mapping it
  returns are exactly the eight category names, in the order of the constructor. The
  key \<^verbatim>\<open>typescript\<close> that the TypeScript analyzer adds to its per-file metrics is
  never read by \<^verbatim>\<open>aggregate_metrics\<close>.
\<close>

theorem analyze_files_category_closure:
  "\<exists>s. analyze_files_all A earlier init_state = Inr s \<and>
     (\<exists>ms s'. analyze_files A files s = Inr (ms, s') \<and> map fst ms = categories)"
proof -
  from analyze_files_all_keys [OF init_keys, of A earlier] obtain s where
    s: "analyze_files_all A earlier init_state = Inr s" "map fst (metrics s) = categories" by blast
  from analyze_files_returns [OF s(2), of A files] s(1) show ?thesis by blast
qed

text \<open>
  Claim C6 on the TypeScript analyzer and one file: the per-file metrics hold the key
  \<^verbatim>\<open>typescript\<close>, the mapping returned holds the eight categories and nothing else.
\<close>

theorem analyze_files_category_closure_witness:
  "\<exists>ms s'.
     analyze_files (typescript_analyzer (scanner_with 9 10)) [(''src/app.ts'', ''let n: Number = 1'')]
       init_state = Inr (ms, s') \<and>
     map fst ms = categories \<and>
     map snd ms =
       [[], [(''cobertura_docstrings'', 0.7)], [], [], [], [], [(''validacion_entradas'', 0.48)], []]"
proof -
  have "(case analyze_files (typescript_analyzer (scanner_with 9 10))
               [(''src/app.ts'', ''let n: Number = 1'')] init_state of
           Inl e \<Rightarrow> False
         | Inr (ms, s') \<Rightarrow>
             map snd ms =
               [[], [(''cobertura_docstrings'', 0.7)], [], [], [], [], [(''validacion_entradas'', 0.48)], []])"
    by code_simp
  with analyze_files_category_closure
         [of "typescript_analyzer (scanner_with 9 10)" "[]" "[(''src/app.ts'', ''let n: Number = 1'')]"]
  show ?thesis by auto
qed

text \<open>
  Claim C10. Two calls of \<^verbatim>\<open>analyze_files\<close> on one fresh instance, on the file maps
  \<open>F1\<close> and then \<open>F2\<close>, both return, and \<^verbatim>\<open>get_summary\<close> then reports as
  \<^verbatim>\<open>total_files\<close> the number of files of \<open>F1\<close> plus the number of files of \<open>F2\<close>
  that match an extension and whose analysis did not raise, and as \<^verbatim>\<open>total_lines\<close> the
  newline counts of those same files added up: the counters are never reset.
\<close>

theorem counters_accumulate:
  "\<exists>m1 s1 m2 s2.
     analyze_files A F1 init_state = Inr (m1, s1) \<and> analyze_files A F2 s1 = Inr (m2, s2) \<and>
     summary_total_files (get_summary A s2) = length (analyzed A F1) + length (analyzed A F2) \<and>
     summary_total_lines (get_summary A s2) = newline_total (analyzed A F1) + newline_total (analyzed A F2)"
proof -
  from analyze_files_returns [OF init_keys, of A F1] obtain m1 s1 where
    s1: "analyze_files A F1 init_state = Inr (m1, s1)" "map fst (metrics s1) = categories"
      "total_files s1 = total_files init_state + length (analyzed A F1)"
      "total_lines s1 = total_lines init_state + newline_total (analyzed A F1)"
    unfolding newline_total_def by blast
  from analyze_files_returns [OF s1(2), of A F2] obtain m2 s2 where
    s2: "analyze_files A F2 s1 = Inr (m2, s2)"
      "total_files s2 = total_files s1 + length (analyzed A F2)"
      "total_lines s2 = total_lines s1 + newline_total (analyzed A F2)"
    unfolding newline_total_def by blast
  have "total_files init_state = 0" "total_lines init_state = 0" by (simp_all add: init_state_def)
  with s1 s2 show ?thesis by (simp add: get_summary_def)
qed

lemma sample_analyzed:
  "analyzed sample_analyzer sample_files = [(''a.py'', ''x = 1\<newline>y = 2\<newline>'')]"
  "analyzed sample_analyzer more_files = [(''a.py'', ''x = 1\<newline>y = 2\<newline>''), (''b.pyw'', ''z'')]"
  by (simp_all add: analyzed_def sample_analyzer_def sample_files_def more_files_def
        should_analyze_file_def endswith_def)

text \<open>
  Claim C10 on the sample: of the three files of the first map one is counted, with two
  newlines; the second map adds two files and two newlines.
\<close>

theorem counters_accumulate_witness:
  "\<exists>m1 s1 m2 s2.
     analyze_files sample_analyzer sample_files init_state = Inr (m1, s1) \<and>
     analyze_files sample_analyzer more_files s1 = Inr (m2, s2) \<and>
     summary_total_files (get_summary sample_analyzer s2) = 3 \<and>
     summary_total_lines (get_summary sample_analyzer s2) = 4"
  using counters_accumulate [of sample_analyzer sample_files more_files]
  by (simp add: sample_analyzed newline_total_def count_newlines_def eval_nat_numeral)


subsection \<open>The bounds of the empathy score\<close>

lemma mean_in_unit:
  fixes xs :: "real list"
  assumes "xs \<noteq> []" and "\<forall>x \<in> set xs. 0 \<le> x \<and> x \<le> 1"
  shows "0 \<le> sum_list xs / real (length xs) \<and> sum_list xs / real (length xs) \<le> 1"
proof -
  have lo: "0 \<le> sum_list xs" using assms(2) by (simp add: sum_list_nonneg)
  have hi: "sum_list xs \<le> real (length xs)" using assms(2)
    by (induction xs) auto
  have pos: "0 < real (length xs)" using assms(1) by simp
  show ?thesis using lo hi pos by (simp add: divide_le_eq)
qed

lemma leaf_scores_unit:
  assumes "list_all unit_readings fms" and "(c, l, t) \<in> set aggregated_leaves"
  shows "\<forall>x \<in> set (leaf_scores c l fms). 0 \<le> x \<and> x \<le> 1"
proof
  fix x assume "x \<in> set (leaf_scores c l fms)"
  then obtain m where m: "m \<in> set fms" and x: "x = read_leaf m c l"
    by (auto simp: leaf_scores_def read_leaf_def)
  from assms(1) m have "unit_readings m" by (simp add: list_all_iff)
  with assms(2) x show "0 \<le> x \<and> x \<le> 1"
    unfolding unit_readings_def list_all_iff by fastforce
qed

lemma update_leaf_unit:
  assumes "list_all (\<lambda>(leaf, v). 0 \<le> v \<and> v \<le> (1::real)) d" and "0 \<le> x" and "x \<le> 1"
  shows "list_all (\<lambda>(leaf, v). 0 \<le> v \<and> v \<le> (1::real)) (AList.update k x d)"
  using assms by (induction d) auto

lemma update_category_unit:
  assumes "unit_leaves ms" and "list_all (\<lambda>(leaf, v). 0 \<le> v \<and> v \<le> (1::real)) d"
  shows "unit_leaves (AList.update c d ms)"
  using assms by (induction ms) (auto simp: unit_leaves_def)

lemma map_of_unit:
  assumes "unit_leaves ms" and "map_of ms c = Some d"
  shows "list_all (\<lambda>(leaf, v). 0 \<le> v \<and> v \<le> (1::real)) d"
proof -
  from assms(2) have "(c, d) \<in> set ms" by (rule map_of_SomeD)
  with assms(1) show ?thesis unfolding unit_leaves_def list_all_iff by fastforce
qed

lemma set_leaf_unit:
  assumes "unit_leaves ms" and "0 \<le> x" and "x \<le> 1" and "set_leaf ms c t x = Inr ms'"
  shows "unit_leaves ms'"
proof (cases "map_of ms c")
  case None
  with assms(4) show ?thesis by (simp add: set_leaf_def)
next
  case (Some d)
  have "list_all (\<lambda>(leaf, v). 0 \<le> v \<and> v \<le> (1::real)) (AList.update t x d)"
    using update_leaf_unit [OF map_of_unit [OF assms(1) Some] assms(2,3)] .
  from update_category_unit [OF assms(1) this] Some assms(4) show ?thesis
    by (auto simp: set_leaf_def)
qed

lemma aggregate_leaf_unit:
  assumes "unit_leaves ms" and "list_all unit_readings fms" and "(c, l, t) \<in> set aggregated_leaves"
    and "aggregate_leaf fms c l t ms = Inr ms'"
  shows "unit_leaves ms'"
proof (cases "leaf_scores c l fms = []")
  case True
  with assms(1,4) show ?thesis by (simp add: aggregate_leaf_def)
next
  case False
  from mean_in_unit [OF False leaf_scores_unit [OF assms(2,3)]]
  have "0 \<le> sum_list (leaf_scores c l fms) / real (length (leaf_scores c l fms))"
    and "sum_list (leaf_scores c l fms) / real (length (leaf_scores c l fms)) \<le> 1" by auto
  from set_leaf_unit [OF assms(1) this] assms(4) False show ?thesis
    by (simp add: aggregate_leaf_def Let_def)
qed

lemma aggregate_steps_unit:
  "unit_leaves ms \<Longrightarrow> list_all unit_readings fms \<Longrightarrow> set steps \<subseteq> set aggregated_leaves \<Longrightarrow>
   aggregate_steps fms steps ms = Inr ms' \<Longrightarrow> unit_leaves ms'"
proof (induction steps arbitrary: ms)
  case Nil
  then show ?case by simp
next
  case (Cons step steps)
  obtain c l t where step: "step = (c, l, t)" by (cases step) auto
  from Cons.prems(4) step obtain ms1 where
    ms1: "aggregate_leaf fms c l t ms = Inr ms1" and rest: "aggregate_steps fms steps ms1 = Inr ms'"
    by (auto split: sum.splits)
  from Cons.prems(3) step have "(c, l, t) \<in> set aggregated_leaves" by simp
  from aggregate_leaf_unit [OF Cons.prems(1,2) this ms1] have "unit_leaves ms1" .
  from Cons.IH [OF this Cons.prems(2) _ rest] Cons.prems(3) show ?case by simp
qed

lemma aggregate_metrics_unit:
  assumes "unit_leaves ms" and "list_all unit_readings fms" and "aggregate_metrics fms ms = Inr ms'"
  shows "unit_leaves ms'"
proof (cases "fms = []")
  case True
  with assms show ?thesis by (simp add: aggregate_metrics_def)
next
  case False
  with assms(3) have "aggregate_steps fms aggregated_leaves ms = Inr ms'"
    by (simp add: aggregate_metrics_def)
  from aggregate_steps_unit [OF assms(1,2) _ this] show ?thesis by simp
qed

lemma category_score_bounds:
  assumes "unit_leaves ms" and "0 \<le> w"
  shows "0 \<le> sum_list (category_score ms (c, w)) \<and> sum_list (category_score ms (c, w)) \<le> w"
proof (cases "dict_get ms c [] = []")
  case True
  with assms(2) show ?thesis by (simp add: category_score_def)
next
  case False
  then obtain d where d: "map_of ms c = Some d" and dne: "d \<noteq> []"
    by (auto simp: dict_get_def split: option.splits)
  from map_of_unit [OF assms(1) d] have "\<forall>x \<in> set (map snd d). 0 \<le> x \<and> x \<le> 1"
    unfolding list_all_iff by fastforce
  from mean_in_unit [OF _ this] dne
  have m: "0 \<le> sum_list (map snd d) / real (length d)" "sum_list (map snd d) / real (length d) \<le> 1"
    by auto
  have hi: "sum_list (map snd d) / real (length d) * w \<le> 1 * w"
    using m(2) assms(2) by (rule mult_right_mono)
  have lo: "0 \<le> sum_list (map snd d) / real (length d) * w"
    using m(1) assms(2) by (rule mult_nonneg_nonneg)
  have "category_score ms (c, w) = [sum_list (map snd d) / real (length d) * w]"
    using d dne by (simp add: category_score_def dict_get_def)
  with lo hi show ?thesis by simp
qed

lemma weighted_scores_bounds:
  assumes "unit_leaves ms" and "\<forall>cw \<in> set ws. 0 \<le> snd cw"
  shows "0 \<le> sum_list (concat (map (category_score ms) ws)) \<and>
         sum_list (concat (map (category_score ms) ws)) \<le> sum_list (map snd ws)"
  using assms(2)
proof (induction ws)
  case Nil
  then show ?case by simp
next
  case (Cons cw ws)
  obtain c w where cw: "cw = (c, w)" by (cases cw) auto
  with Cons.prems have "0 \<le> w" by simp
  from category_score_bounds [OF assms(1) this, of c] Cons cw show ?case by auto
qed

lemma score_in_unit:
  assumes "unit_leaves ms"
  shows "0 \<le> calculate_empathy_score ms \<and> calculate_empathy_score ms \<le> 1"
proof -
  have w: "\<forall>cw \<in> set weights. 0 \<le> snd cw" by (simp add: weights_def)
  have s: "sum_list (map snd weights) = 1" by (simp add: weights_def)
  from weighted_scores_bounds [OF assms w] s show ?thesis
    by (simp add: calculate_empathy_score_def Let_def)
qed


text \<open>
  Claim C1 as stated fails: the base class averages whatever the analyzer reports, and
  the leaf \<^verbatim>\<open>funciones\<close> is a count. An analyzer that reports ten functions for the one
  file \<^verbatim>\<open>a.py\<close> gives \<^verbatim>\<open>funciones_por_archivo = 10\<close> and the score 10 * 0.15 = 1.5.
\<close>

theorem empathy_score_exceeds_one:
  "analyze_files counting_analyzer [(''a.py'', ''def f(): pass'')] init_state =
     Inr ([(''nombres'', []), (''documentacion'', []),
           (''modularidad'', [(''funciones_por_archivo'', 10)]),
           (''complejidad'', []), (''manejo_errores'', []), (''pruebas'', []),
           (''seguridad'', []), (''consistencia_estilo'', [])],
          \<lparr>metrics = [(''nombres'', []), (''documentacion'', []),
                      (''modularidad'', [(''funciones_por_archivo'', 10)]),
                      (''complejidad'', []), (''manejo_errores'', []), (''pruebas'', []),
                      (''seguridad'', []), (''consistencia_estilo'', [])],
            total_files = 1, total_lines = 0\<rparr>) \<and>
   calculate_empathy_score
     [(''nombres'', []), (''documentacion'', []),
      (''modularidad'', [(''funciones_por_archivo'', 10)]),
      (''complejidad'', []), (''manejo_errores'', []), (''pruebas'', []),
      (''seguridad'', []), (''consistencia_estilo'', [])] = 3 / 2"
  by (simp add: analyze_files_def counting_analyzer_def init_state_def should_analyze_file_def
        endswith_def aggregate_metrics_def aggregated_leaves_def aggregate_leaf_def leaf_scores_def
        set_leaf_def dict_get_def count_newlines_def calculate_empathy_score_def category_score_def
        weights_def)

text \<open>
  Claim C1, amended. When each leaf that \<^verbatim>\<open>aggregate_metrics\<close> reads from the per-file
  metrics of the analysed files lies between 0 and 1, \<^verbatim>\<open>analyze_files\<close> on a fresh
  instance returns and the empathy score computed afterwards lies between 0 and 1.
\<close>

theorem empathy_score_in_unit_interval:
  assumes "list_all unit_readings (file_results A files)"
  shows "\<exists>ms s. analyze_files A files init_state = Inr (ms, s) \<and>
           0 \<le> calculate_empathy_score (metrics s) \<and> calculate_empathy_score (metrics s) \<le> 1"
proof -
  obtain fms s1 where c: "collect_file_metrics A files ([], init_state) = (fms, s1)"
    by (cases "collect_file_metrics A files ([], init_state)") auto
  have fms: "fms = file_results A files"
    using collect_fst [of A files "[]" init_state] c by simp
  have m: "metrics s1 = metrics init_state"
    using collect_metrics_unchanged [of A files "[]" init_state] c by simp
  have u0: "unit_leaves (metrics s1)" by (simp add: m unit_leaves_def init_state_def)
  have k: "map fst (metrics s1) = categories" using m init_keys by simp
  from aggregate_metrics_keys [OF k, of fms] obtain ms' where
    ms': "aggregate_metrics fms (metrics s1) = Inr ms'" by blast
  from aggregate_metrics_unit [OF u0 _ ms'] assms fms have u: "unit_leaves ms'" by simp
  show ?thesis
  proof (cases "fms = []")
    case True
    with c score_in_unit [OF u0] show ?thesis by (simp add: analyze_files_def)
  next
    case False
    with c ms' score_in_unit [OF u] show ?thesis by (simp add: analyze_files_def)
  qed
qed

lemma sample_results:
  "file_results sample_analyzer sample_files =
     [[(''nombres'', [(''descriptividad'', 0.8)]),
                  (''documentacion'', [(''cobertura'', 0.5)]),
                  (''modularidad'', [(''funciones'', 1)]),
                  (''pruebas'', [])]]"
  by (simp add: file_results_def sample_analyzer_def sample_files_def map_filter_simps
        should_analyze_file_def endswith_def)

text \<open>
  Claim C1, amended, on the sample analyzer and the sample files.
\<close>

theorem empathy_score_in_unit_interval_witness:
  "list_all unit_readings (file_results sample_analyzer sample_files) \<and>
   (\<exists>ms s. analyze_files sample_analyzer sample_files init_state = Inr (ms, s) \<and>
           0 \<le> calculate_empathy_score (metrics s) \<and> calculate_empathy_score (metrics s) \<le> 1)"
proof -
  have h: "list_all unit_readings (file_results sample_analyzer sample_files)"
    by (simp add: sample_results unit_readings_def aggregated_leaves_def read_leaf_def dict_get_def)
  from empathy_score_in_unit_interval [OF h] h show ?thesis by blast
qed

section \<open>Properties of TypeScriptAnalyzer\<close>

lemma read_leaf_set_same:
  "set_leaf m c l v = Inr m' \<Longrightarrow> read_leaf m' c l = v"
  by (auto simp: set_leaf_def read_leaf_def dict_get_def update_conv' split: option.splits)

lemma read_leaf_set_other:
  "set_leaf m c l v = Inr m' \<Longrightarrow> c' \<noteq> c \<Longrightarrow> dict_get m' c' [] = dict_get m c' []"
  by (auto simp: set_leaf_def dict_get_def update_conv' split: option.splits)

lemma set_leaf_present:
  "map_of m c \<noteq> None \<Longrightarrow> \<exists>m'. set_leaf m c l v = Inr m' \<and> (\<forall>c'. map_of m' c' \<noteq> None \<longleftrightarrow> map_of m c' \<noteq> None)"
  by (auto simp: set_leaf_def update_conv' split: option.splits)

text \<open>
  Claim C5 as stated fails for the security score, which is raised below the threshold
  too. With one of two parameters typed the coverage is 0.5; the documentation score
  stays 0.5 and the security score goes from 0.3 to 0.3 + 0.5 * 0.2 = 0.4.
\<close>

theorem security_boost_below_threshold:
  "calculate_type_coverage (type_counts (scanner_with 1 2) ''function f(a: T, b) {}'') = 1 / 2 \<and>
   javascript_analyze_file (scanner_with 1 2) ''app.ts'' ''function f(a: T, b) {}'' =
     Inr [(''documentacion'', [(''cobertura'', 0.5)]), (''seguridad'', [(''validacion'', 0.3)])] \<and>
   ts_analyze_file (scanner_with 1 2) ''app.ts'' ''function f(a: T, b) {}'' =
     Inr [(''documentacion'', [(''cobertura'', 0.5)]), (''seguridad'', [(''validacion'', 0.4)]),
          (''typescript'', [(''type_coverage'', 0.5), (''interfaces'', 0), (''type_aliases'', 0), (''enums'', 0)])]"
  by (simp add: ts_analyze_file_def scanner_with_def calculate_type_coverage_def set_leaf_def
        read_leaf_def dict_get_def Let_def)

text \<open>
  Claim C5, amended. When the JavaScript analysis returns metrics that hold the
  categories \<^verbatim>\<open>documentacion\<close> and \<^verbatim>\<open>seguridad\<close>, \<^verbatim>\<open>analyze_file\<close> returns; the
  documentation score becomes the lesser of 1.0 and the base score plus 0.2 exactly
  when the type coverage is above 0.7, and is the base score otherwise; the security
  score becomes the lesser of 1.0 and the base score plus 0.2 times the type coverage,
  whatever the coverage.
\<close>

theorem typescript_boosts:
  assumes "javascript_analyze_file sc path text = Inr m"
    and "map_of m ''documentacion'' \<noteq> None" and "map_of m ''seguridad'' \<noteq> None"
  shows "\<exists>m'. ts_analyze_file sc path text = Inr m' \<and>
           read_leaf m' ''documentacion'' ''cobertura'' =
             (if 0.7 < calculate_type_coverage (type_counts sc text)
              then min 1 (read_leaf m ''documentacion'' ''cobertura'' + 0.2)
              else read_leaf m ''documentacion'' ''cobertura'') \<and>
           read_leaf m' ''seguridad'' ''validacion'' =
             min 1 (read_leaf m ''seguridad'' ''validacion'' +
                    calculate_type_coverage (type_counts sc text) * 0.2)"
proof -
  define tc where "tc = calculate_type_coverage (type_counts sc text)"
  define m1 where "m1 = AList.update ''typescript''
                   [(''type_coverage'', tc),
                    (''interfaces'', real (count_interfaces sc text)),
                    (''type_aliases'', real (count_type_aliases sc text)),
                    (''enums'', real (count_enums sc text))] m"
  have doc1: "dict_get m1 ''documentacion'' [] = dict_get m ''documentacion'' []"
    and sec1: "dict_get m1 ''seguridad'' [] = dict_get m ''seguridad'' []"
    and p1: "map_of m1 ''documentacion'' \<noteq> None" "map_of m1 ''seguridad'' \<noteq> None"
    using assms(2,3) by (simp_all add: m1_def dict_get_def update_conv')
  define step where "step = (if 0.7 < tc then
                      set_leaf m1 ''documentacion'' ''cobertura''
                        (min 1 (read_leaf m1 ''documentacion'' ''cobertura'' + 0.2))
                    else Inr m1)"
  have "\<exists>m2. step = Inr m2 \<and> map_of m2 ''seguridad'' \<noteq> None \<and>
          dict_get m2 ''seguridad'' [] = dict_get m ''seguridad'' [] \<and>
          read_leaf m2 ''documentacion'' ''cobertura'' =
            (if 0.7 < tc then min 1 (read_leaf m ''documentacion'' ''cobertura'' + 0.2)
             else read_leaf m ''documentacion'' ''cobertura'')"
  proof (cases "0.7 < tc")
    case True
    from set_leaf_present [OF p1(1)] obtain m2 where
      m2: "set_leaf m1 ''documentacion'' ''cobertura'' (min 1 (read_leaf m1 ''documentacion'' ''cobertura'' + 0.2)) = Inr m2"
      and keys: "\<forall>c'. map_of m2 c' \<noteq> None \<longleftrightarrow> map_of m1 c' \<noteq> None" by blast
    have "read_leaf m1 ''documentacion'' ''cobertura'' = read_leaf m ''documentacion'' ''cobertura''"
      by (simp add: read_leaf_def doc1)
    with read_leaf_set_same [OF m2] read_leaf_set_other [OF m2, of "''seguridad''"] keys p1 sec1 True m2
    show ?thesis by (simp add: step_def)
  next
    case False
    with p1 sec1 doc1 show ?thesis by (simp add: step_def read_leaf_def)
  qed
  then obtain m2 where step: "step = Inr m2" and p2: "map_of m2 ''seguridad'' \<noteq> None"
    and sec2: "dict_get m2 ''seguridad'' [] = dict_get m ''seguridad'' []"
    and doc2: "read_leaf m2 ''documentacion'' ''cobertura'' =
            (if 0.7 < tc then min 1 (read_leaf m ''documentacion'' ''cobertura'' + 0.2)
             else read_leaf m ''documentacion'' ''cobertura'')" by blast
  from set_leaf_present [OF p2] obtain m3 where
    m3: "set_leaf m2 ''seguridad'' ''validacion'' (min 1 (read_leaf m2 ''seguridad'' ''validacion'' + tc * 0.2)) = Inr m3"
    by blast
  have "ts_analyze_file sc path text =
          (case step of
             Inl e \<Rightarrow> Inl e
           | Inr metrics2 \<Rightarrow>
               set_leaf metrics2 ''seguridad'' ''validacion''
                 (min 1 (read_leaf metrics2 ''seguridad'' ''validacion'' + tc * 0.2)))"
    unfolding ts_analyze_file_def Let_def step_def m1_def tc_def
    by (simp only: assms(1) sum.case)
  with step m3 have r: "ts_analyze_file sc path text = Inr m3" by simp
  have d3: "read_leaf m3 ''documentacion'' ''cobertura'' = read_leaf m2 ''documentacion'' ''cobertura''"
    using read_leaf_set_other [OF m3, of "''documentacion''"] by (simp add: read_leaf_def)
  have s3: "read_leaf m3 ''seguridad'' ''validacion'' = min 1 (read_leaf m ''seguridad'' ''validacion'' + tc * 0.2)"
    using read_leaf_set_same [OF m3] sec2 by (simp add: read_leaf_def)
  show ?thesis using r d3 s3 doc2 by (simp add: tc_def)
qed


lemma scanner_base:
  "javascript_analyze_file (scanner_with typed params) path text =
     Inr [(''documentacion'', [(''cobertura'', 0.5)]), (''seguridad'', [(''validacion'', 0.3)])]"
  by (simp add: scanner_with_def)

lemma scanner_coverage:
  "calculate_type_coverage (type_counts (scanner_with 9 10) text) = 9 / 10"
  by (simp add: scanner_with_def calculate_type_coverage_def)

text \<open>
  Claim C5, amended, on a text with nine of ten parameters typed: the coverage is 0.9,
  the documentation score goes from 0.5 to 0.7 and the security score from 0.3 to
  0.3 + 0.9 * 0.2 = 0.48.
\<close>

theorem typescript_boosts_witness:
  "\<exists>m'. ts_analyze_file (scanner_with 9 10) ''app.ts'' ''let n: Number = 1'' = Inr m' \<and>
      read_leaf m' ''documentacion'' ''cobertura'' = 0.7 \<and>
      read_leaf m' ''seguridad'' ''validacion'' = 0.48"
  using typescript_boosts [OF scanner_base, of 9 10 "''app.ts''" "''let n: Number = 1''"]
  by (simp add: scanner_coverage read_leaf_def dict_get_def)

section \<open>Properties of AnalyzerFactory\<close>

text \<open>
  Claim C2 on the factory as the module defines it, whatever the built-in classes are:
  after \<^verbatim>\<open>register_analyzer('xyz', A)\<close> the analyzer is found by its language name, and
  \<^verbatim>\<open>get_analyzer_for_file("foo.xyz")\<close> still returns \<^verbatim>\<open>None\<close>, since registration
  leaves \<^verbatim>\<open>_extension_map\<close> as it was and the extensions of the class are never read.
\<close>

theorem registered_extension_not_found:
  "get_analyzer (register_analyzer (builtin_factory cls) ''xyz'' A) ''xyz'' = Some A \<and>
   get_analyzer_for_file (register_analyzer (builtin_factory cls) ''xyz'' A) ''foo.xyz'' = None"
  by (simp add: get_analyzer_for_file_def get_analyzer_def register_analyzer_def builtin_factory_def
        builtin_extension_map_def splitext_def lower_def lower_char_def update_conv')

lemma earlier_extensions_kept:
  assumes "map_of (analyzers F) (lower language_name) = None"
    and "get_analyzer_for_file F path = Some B"
  shows "get_analyzer_for_file (register_analyzer F language_name A) path = Some B"
  using assms
  by (auto simp: get_analyzer_for_file_def register_analyzer_def get_analyzer_def Let_def update_conv'
      split: option.splits if_splits)


lemma weighted_empathy_sum:
  "file_total \<noteq> 0 \<Longrightarrow>
   weighted_empathy results file_total acc =
     Inr (acc + sum_list (map (\<lambda>(lang_name, lang_data).
            empathy_score (result_summary lang_data) * real (file_count lang_data) / real file_total) results))"
  by (induction results file_total acc rule: weighted_empathy.induct) (simp_all add: add.assoc)

lemma update_values_positive:
  assumes "\<forall>d \<in> snd ` set results. 0 < file_count d" and "0 < file_count r"
  shows "\<forall>d \<in> snd ` set (AList.update k r results). 0 < file_count d"
  using assms by (induction results) auto

lemma analyze_languages_returns:
  "\<forall>fs \<in> snd ` set language_files. fs \<noteq> [] \<Longrightarrow>
   \<forall>d \<in> snd ` set results. 0 < file_count d \<Longrightarrow>
   \<exists>results'. analyze_languages md5 F language_files results = Inr results' \<and>
      (\<forall>d \<in> snd ` set results'. 0 < file_count d)"
proof (induction language_files arbitrary: results)
  case Nil
  then show ?case by simp
next
  case (Cons group language_files)
  obtain language_name lang_files where g: "group = (language_name, lang_files)" by (cases group) auto
  from Cons.prems(1) g have ne: "lang_files \<noteq> []" and rest: "\<forall>fs \<in> snd ` set language_files. fs \<noteq> []"
    by auto
  show ?case
  proof (cases "get_analyzer F (lower language_name)")
    case None
    with Cons.IH [OF rest Cons.prems(2)] g show ?thesis by simp
  next
    case (Some A)
    from analyze_files_returns [OF init_keys, of A lang_files] obtain ms s where
      r: "analyze_files A lang_files init_state = Inr (ms, s)" by blast
    let ?r = "\<lparr>result_metrics = ms, result_summary = get_summary A s, duplication = analyze_duplication md5 lang_files,
             file_count = length lang_files\<rparr>"
    have "0 < file_count ?r" using ne by simp
    from update_values_positive [OF Cons.prems(2) this]
    have "\<forall>d \<in> snd ` set (AList.update language_name ?r results). 0 < file_count d" .
    from Cons.IH [OF rest this] Some r g show ?thesis by simp
  qed
qed

lemma update_groups_nonempty:
  assumes "\<forall>fs \<in> snd ` set groups. fs \<noteq> []" and "fs' \<noteq> []"
  shows "\<forall>fs \<in> snd ` set (AList.update k fs' groups). fs \<noteq> []"
  using assms by (induction groups) auto

lemma group_files_nonempty:
  "\<forall>fs \<in> snd ` set language_files. fs \<noteq> [] \<Longrightarrow>
   \<forall>fs \<in> snd ` set (group_files F files language_files). fs \<noteq> []"
proof (induction files arbitrary: language_files)
  case Nil
  then show ?case by simp
next
  case (Cons entry rest)
  obtain p t where e: "entry = (p, t)" by (cases entry) auto
  show ?case
  proof (cases "get_analyzer_for_file F p")
    case None
    with Cons e show ?thesis by simp
  next
    case (Some A)
    define language_name where "language_name = get_language_name A"
    define language_files1 where "language_files1 =
                 (if language_name \<notin> set (map fst language_files)
                  then AList.update language_name [] language_files
                  else language_files)"
    define fs' where "fs' = AList.update p t (dict_get language_files1 language_name [])"
    have eq: "AList.update language_name fs' language_files1 = AList.update language_name fs' language_files"
      by (simp add: language_files1_def update_twice)
    have "fs' \<noteq> []" by (simp add: fs'_def update_nonempty)
    from update_groups_nonempty [OF Cons.prems this]
    have "\<forall>fs \<in> snd ` set (AList.update language_name fs' language_files1). fs \<noteq> []"
      by (simp only: eq)
    from Cons.IH [OF this] Some e
    show ?thesis by (simp add: Let_def language_name_def language_files1_def fs'_def)
  qed
qed

lemma total_positive:
  assumes "results \<noteq> []" and "\<forall>d \<in> snd ` set results. 0 < file_count d"
  shows "0 < total_file_count results"
proof -
  from assms(1) obtain n d rest where r: "results = (n, d) # rest" by (cases results) auto
  with assms(2) have "0 < file_count d" by simp
  with r show ?thesis by (simp add: total_file_count_def)
qed

text \<open>
  Claim C8, amended. \<^verbatim>\<open>analyze_multi_language_project\<close> returns for every file map. When
  at least one language was analysed, \<^verbatim>\<open>total_metrics\<close> holds
  \<^verbatim>\<open>overall_empathy_score\<close>, and it is the sum over the analysed languages of the
  empathy score times the file count divided by the file count of all of them. When no
  language was analysed, \<^verbatim>\<open>total_metrics\<close> is the empty mapping.
\<close>

theorem overall_score_file_weighted:
  "\<exists>res. analyze_multi_language_project md5 F files = Inr res \<and>
     (languages res = [] \<longrightarrow> total_metrics res = None) \<and>
     (languages res \<noteq> [] \<longrightarrow>
        (\<exists>totals. total_metrics res = Some totals \<and>
           overall_empathy_score totals = file_weighted_score (languages res)))"
proof -
  have "\<forall>fs \<in> snd ` set (group_files F files []). fs \<noteq> []"
    by (rule group_files_nonempty) simp
  from analyze_languages_returns [OF this, of "[]" md5 F] obtain results where
    r: "analyze_languages md5 F (group_files F files []) [] = Inr results"
      and pos: "\<forall>d \<in> snd ` set results. 0 < file_count d" by auto
  show ?thesis
  proof (cases "results = []")
    case True
    with r show ?thesis
      by (simp add: analyze_multi_language_project_def calculate_aggregate_metrics_def)
  next
    case False
    from total_positive [OF False pos] have t: "total_file_count results \<noteq> 0" by simp
    have w: "weighted_empathy results (total_file_count results) 0 = Inr (file_weighted_score results)"
      using weighted_empathy_sum [OF t, of results 0] by (simp add: file_weighted_score_def)
    have "\<exists>totals. calculate_aggregate_metrics results = Inr (Some totals) \<and>
            overall_empathy_score totals = file_weighted_score results"
      using False w
      by (simp add: calculate_aggregate_metrics_def Let_def total_file_count_def [symmetric])
    then obtain totals where
      "calculate_aggregate_metrics results = Inr (Some totals)"
      "overall_empathy_score totals = file_weighted_score results" by blast
    with r False show ?thesis
      by (simp add: analyze_multi_language_project_def)
  qed
qed


text \<open>
  Claim C8 as stated fails on a file map that holds no file of a registered extension:
  no language is analysed and \<^verbatim>\<open>total_metrics\<close> is the empty mapping, which has no
  \<^verbatim>\<open>overall_empathy_score\<close>.
\<close>

theorem no_language_no_overall_score:
  "analyze_multi_language_project Inr two_language_factory [(''README.md'', ''notes'')] =
     Inr \<lparr>languages = [], total_metrics = None, primary_language = None\<rparr>"
  by (simp add: analyze_multi_language_project_def two_language_factory_def get_analyzer_for_file_def
        splitext_def lower_def lower_char_def calculate_aggregate_metrics_def py_max_def)

lemma project_languages:
  "(case analyze_multi_language_project Inr two_language_factory project_files of
      Inl e \<Rightarrow> False
    | Inr res \<Rightarrow>
        map fst (languages res) = [''Python'', ''TypeScript''] \<and>
        map (\<lambda>(n, d). file_count d) (languages res) = [2, 1] \<and>
        map (\<lambda>(n, d). empathy_score (result_summary d)) (languages res) = [345 / 1000, 153 / 1000] \<and>
        file_weighted_score (languages res) = 281 / 1000)"
  by code_simp

text \<open>
  Claim C8, amended, on a project of two Python files, with the score 0.345, and one
  TypeScript file, with the score 0.153: the overall score is
  0.345 * 2 / 3 + 0.153 * 1 / 3 = 0.281.
\<close>

theorem overall_score_file_weighted_witness:
  "\<exists>res totals.
     analyze_multi_language_project Inr two_language_factory project_files = Inr res \<and>
     map fst (languages res) = [''Python'', ''TypeScript''] \<and>
     total_metrics res = Some totals \<and> overall_empathy_score totals = 281 / 1000"
  using overall_score_file_weighted [of Inr two_language_factory project_files] project_languages
  by (auto split: sum.splits)

section \<open>Properties of DuplicationAnalyzer\<close>

lemma cluster_lines_nonneg: "0 \<le> cluster_lines (clusters groups)"
  by (auto simp: cluster_lines_def clusters_def info_of_def intro!: sum_list_nonneg mult_nonneg_nonneg)

lemma scan_groups_closed:
  "distinct (map fst groups) \<Longrightarrow> set (map fst groups) \<inter> set (map fst dups0) = {} \<Longrightarrow>
   scan_groups groups (dups0, tot0, fs0) =
     (dups0 @ clusters groups,
      nat (int tot0 + cluster_lines (clusters groups)),
      fs0 \<union> cluster_files (clusters groups))"
proof (induction groups arbitrary: dups0 tot0 fs0)
  case Nil
  then show ?case by (simp add: clusters_def cluster_lines_def cluster_files_def)
next
  case (Cons g groups)
  obtain h bs where g: "g = (h, bs)" by (cases g) auto
  from Cons.prems g have d: "distinct (map fst groups)" and hn: "h \<notin> set (map fst groups)"
    and h0: "h \<notin> set (map fst dups0)" and dj: "set (map fst groups) \<inter> set (map fst dups0) = {}"
    by auto
  show ?case
  proof (cases "1 < length bs")
    case False
    then have "scan_groups (g # groups) (dups0, tot0, fs0) = scan_groups groups (dups0, tot0, fs0)"
      using g by (cases bs) auto
    moreover have "clusters (g # groups) = clusters groups"
      using False g by (simp add: clusters_def)
    ultimately show ?thesis using Cons.IH [OF d dj] by simp
  next
    case True
    then obtain b rest where bs: "bs = b # rest" by (cases bs) auto
    let ?dups1 = "dups0 @ [(h, info_of bs)]"
    have u: "AList.update h (info_of bs) dups0 = ?dups1"
      using h0 by (rule update_fresh_append)
    have dj1: "set (map fst groups) \<inter> set (map fst ?dups1) = {}"
      using dj hn by auto
    have step: "scan_groups (g # groups) (dups0, tot0, fs0) =
        scan_groups groups (?dups1, tot0 + block_size b * (length bs - 1), fs0 \<union> set (map file_path bs))"
      using True g bs u by (simp add: info_of_def)
    have c: "clusters (g # groups) = (h, info_of bs) # clusters groups"
      using True g by (simp add: clusters_def)
    have l: "cluster_lines ((h, info_of bs) # clusters groups) =
               int (block_size b * (length bs - 1)) + cluster_lines (clusters groups)"
      using bs by (simp add: cluster_lines_def info_of_def)
    have nn: "0 \<le> cluster_lines (clusters groups)" by (rule cluster_lines_nonneg)
    have f: "cluster_files ((h, info_of bs) # clusters groups) =
               set (map file_path bs) \<union> cluster_files (clusters groups)"
      by (simp add: cluster_files_def info_of_def)
    show ?thesis
      unfolding step Cons.IH [OF d dj1] c l f using nn
      by (simp add: nat_add_distrib Un_assoc)
  qed
qed

lemma add_block_distinct:
  "distinct (map fst groups) \<Longrightarrow> distinct (map fst (foldl add_block groups bs))"
  by (induction bs arbitrary: groups) (simp_all add: add_block_def distinct_update)

lemma group_blocks_distinct:
  "distinct (map fst groups) \<Longrightarrow> group_blocks md5 cfg files groups = Inr groups' \<Longrightarrow>
   distinct (map fst groups')"
proof (induction files arbitrary: groups)
  case Nil
  then show ?case by simp
next
  case (Cons entry rest)
  obtain p t where e: "entry = (p, t)" by (cases entry) auto
  show ?case
  proof (cases "strip t = []")
    case True
    with Cons e show ?thesis by simp
  next
    case False
    with Cons.prems(2) e obtain file_blocks where
      fb: "extract_blocks md5 cfg t p = Inr file_blocks"
      and r: "group_blocks md5 cfg rest (foldl add_block groups file_blocks) = Inr groups'"
      by (auto split: sum.splits)
    from Cons.IH [OF add_block_distinct [OF Cons.prems(1)] r] show ?thesis .
  qed
qed







lemma add_stat_keys:
  "fst ` set (add_stat n stats b) = insert (file_path b) (fst ` set stats)"
  by (simp add: add_stat_def dom_update)



lemma fold_stat_keys:
  "fst ` set (foldl (add_stat n) stats bs) = fst ` set stats \<union> file_path ` set bs"
  by (induction bs arbitrary: stats) (auto simp: add_stat_keys)


lemma stats_from_Nil: "stats_from stats [] = stats"
  by (simp add: stats_from_def)

lemma stats_from_Cons:
  "stats_from stats ((h, dup) # rest) =
     stats_from (foldl (add_stat (dup_size dup)) stats (blocks dup)) rest"
  by (simp add: stats_from_def)


lemma stats_from_keys:
  "fst ` set (stats_from stats duplicates) = fst ` set stats \<union> cluster_files duplicates"
proof (induction duplicates arbitrary: stats)
  case Nil
  then show ?case by (simp add: stats_from_Nil cluster_files_def)
next
  case (Cons entry rest)
  obtain h dup where e: "entry = (h, dup)" by (cases entry) auto
  have "cluster_files (entry # rest) = file_path ` set (blocks dup) \<union> cluster_files rest"
    by (simp add: e cluster_files_def)
  then show ?case by (simp add: e stats_from_Cons Cons.IH fold_stat_keys Un_assoc)
qed


lemma file_duplication_stats_from: "file_duplication_stats duplicates = stats_from [] duplicates"
  by (simp add: file_duplication_stats_def stats_from_def)

lemma max_by_in: "max_by key best xs \<in> insert best (set xs)"
  by (induction key best xs rule: max_by.induct) auto

lemma max_by_ge_best: "key best \<le> key (max_by key best xs)"
  by (induction key best xs rule: max_by.induct) auto

lemma max_by_ge: "y \<in> set xs \<Longrightarrow> key y \<le> key (max_by key best xs)"
proof (induction key best xs rule: max_by.induct)
  case (1 key best)
  then show ?case by simp
next
  case (2 key best x xs)
  show ?case
  proof (cases "y = x")
    case True
    show ?thesis
    proof (cases "key best < key x")
      case True
      with \<open>y = x\<close> max_by_ge_best [of key x xs] show ?thesis by simp
    next
      case False
      with \<open>y = x\<close> max_by_ge_best [of key best xs] show ?thesis by simp
    qed
  next
    case False
    with 2 show ?thesis by auto
  qed
qed

lemma py_max_some:
  assumes "py_max key xs = Some x"
  shows "x \<in> set xs \<and> (\<forall>y \<in> set xs. key y \<le> key x)"
proof -
  from assms obtain x0 rest where xs: "xs = x0 # rest" and x: "x = max_by key x0 rest"
    by (auto simp: py_max_def split: list.splits)
  have "x \<in> set xs" using max_by_in [of key x0 rest] xs x by simp
  moreover have "\<forall>y \<in> set xs. key y \<le> key x"
    using max_by_ge [of _ rest key x0] max_by_ge_best [of key x0 rest] xs x by auto
  ultimately show ?thesis by simp
qed







subsection \<open>What find_duplicates can raise\<close>

text \<open>
  Every block carries the path of a file of the map, so the lookup of the most
  duplicated file never misses: \<^verbatim>\<open>find_duplicates\<close> raises only what the digest raises,
  and returns a report whenever the digest returns for every text.
\<close>

lemma block_at_raises: "block_at md5 cfg lines path i = Inl e \<Longrightarrow> \<exists>s. md5 s = Inl e"
  by (auto simp: block_at_def Let_def split: if_splits sum.splits)

lemma block_at_path: "block_at md5 cfg lines path i = Inr bs \<Longrightarrow> b \<in> set bs \<Longrightarrow> file_path b = path"
  by (auto simp: block_at_def Let_def split: if_splits sum.splits)

lemma extract_from_raises:
  "extract_from md5 cfg lines path starts = Inl e \<Longrightarrow> \<exists>s. md5 s = Inl e"
  by (induction starts) (auto split: sum.splits dest: block_at_raises)

lemma extract_from_path:
  "extract_from md5 cfg lines path starts = Inr bs \<Longrightarrow> b \<in> set bs \<Longrightarrow> file_path b = path"
  by (induction starts arbitrary: bs) (auto split: sum.splits dest: block_at_path)

lemma set_update_subset: "set (AList.update k v al) \<subseteq> insert (k, v) (set al)"
  by (induction al) auto

lemma add_block_paths: "group_paths (add_block groups b) \<subseteq> insert (file_path b) (group_paths groups)"
proof
  fix p assume "p \<in> group_paths (add_block groups b)"
  then obtain h bs where m: "(h, bs) \<in> set (add_block groups b)" and p: "p \<in> file_path ` set bs"
    by (auto simp: group_paths_def)
  from m set_update_subset [of "hash b" _ groups]
  consider "bs = dict_get groups (hash b) [] @ [b]" | "(h, bs) \<in> set groups"
    by (auto simp: add_block_def)
  then show "p \<in> insert (file_path b) (group_paths groups)"
  proof cases
    case 1
    show ?thesis
    proof (cases "map_of groups (hash b)")
      case None
      with 1 p show ?thesis by (simp add: dict_get_def)
    next
      case (Some old)
      then have "(hash b, old) \<in> set groups" by (rule map_of_SomeD)
      with 1 p Some show ?thesis by (auto simp: dict_get_def group_paths_def)
    qed
  next
    case 2
    with p show ?thesis by (auto simp: group_paths_def)
  qed
qed

lemma fold_add_block_paths:
  "group_paths (foldl add_block groups bs) \<subseteq> group_paths groups \<union> file_path ` set bs"
proof (induction bs arbitrary: groups)
  case Nil
  then show ?case by simp
next
  case (Cons b bs)
  from Cons.IH [of "add_block groups b"] add_block_paths [of groups b] show ?case by auto
qed

lemma group_blocks_raises:
  "group_blocks md5 cfg files groups = Inl e \<Longrightarrow> \<exists>s. md5 s = Inl e"
proof (induction files arbitrary: groups)
  case Nil
  then show ?case by simp
next
  case (Cons entry rest)
  obtain p t where e: "entry = (p, t)" by (cases entry) auto
  from Cons.prems e consider "group_blocks md5 cfg rest groups = Inl e"
    | "extract_blocks md5 cfg t p = Inl e"
    | bs where "group_blocks md5 cfg rest (foldl add_block groups bs) = Inl e"
    by (auto split: if_splits sum.splits)
  then show ?case
  proof cases
    case 1 then show ?thesis by (rule Cons.IH)
  next
    case 2 then show ?thesis by (auto simp: extract_blocks_def Let_def dest: extract_from_raises)
  next
    case 3 then show ?thesis by (rule Cons.IH)
  qed
qed

lemma group_blocks_paths:
  "group_blocks md5 cfg files groups = Inr groups' \<Longrightarrow>
   group_paths groups' \<subseteq> group_paths groups \<union> fst ` set files"
proof (induction files arbitrary: groups)
  case Nil
  then show ?case by simp
next
  case (Cons entry rest)
  obtain p t where e: "entry = (p, t)" by (cases entry) auto
  show ?case
  proof (cases "strip t = []")
    case True
    with Cons.prems e have "group_blocks md5 cfg rest groups = Inr groups'" by simp
    from Cons.IH [OF this] show ?thesis by auto
  next
    case False
    with Cons.prems e obtain bs where
      fb: "extract_blocks md5 cfg t p = Inr bs"
      and r: "group_blocks md5 cfg rest (foldl add_block groups bs) = Inr groups'"
      by (auto split: sum.splits)
    from fb have fp: "file_path ` set bs \<subseteq> {p}"
      by (auto simp: extract_blocks_def Let_def dest: extract_from_path)
    have a: "group_paths groups' \<subseteq> group_paths (foldl add_block groups bs) \<union> fst ` set rest"
      by (rule Cons.IH [OF r])
    have b: "group_paths (foldl add_block groups bs) \<subseteq> group_paths groups \<union> {p}"
      using fold_add_block_paths [of groups bs] fp by blast
    have "fst ` set (entry # rest) = insert p (fst ` set rest)" using e by simp
    with a b show ?thesis by blast
  qed
qed

lemma cluster_files_paths: "cluster_files (clusters groups) \<subseteq> group_paths groups"
  by (auto simp: cluster_files_def clusters_def group_paths_def info_of_def)

lemma find_duplicates_raises_only_digest:
  assumes "find_duplicates md5 cfg files = Inl e"
  shows "\<exists>s. md5 s = Inl e"
proof (cases "group_blocks md5 cfg files []")
  case (Inl e')
  with assms have "e' = e" by (simp add: find_duplicates_def)
  with Inl group_blocks_raises show ?thesis by blast
next
  case (Inr groups)
  have d: "distinct (map fst groups)"
    by (rule group_blocks_distinct [OF _ Inr]) simp
  have s: "scan_groups groups ([], 0, {}) =
             (clusters groups, nat (cluster_lines (clusters groups)), cluster_files (clusters groups))"
    using scan_groups_closed [OF d, of "[]" 0 "{}"] by simp
  let ?stats = "file_duplication_stats (clusters groups)"
  from assms Inr s obtain path n where m: "py_max snd ?stats = Some (path, n)"
    and k: "map_of files path = None"
    by (auto simp: find_duplicates_def Let_def split: option.splits)
  from py_max_some [OF m] have "path \<in> fst ` set ?stats" by (metis fst_conv image_eqI)
  then have "path \<in> cluster_files (clusters groups)"
    using stats_from_keys [of "[]" "clusters groups"] by (simp add: file_duplication_stats_from)
  moreover have "group_paths groups \<subseteq> fst ` set files"
    using group_blocks_paths [OF Inr] by (simp add: group_paths_def)
  ultimately have "path \<in> fst ` set files"
    using cluster_files_paths [of groups] by blast
  with k show ?thesis by (simp add: map_of_eq_None_iff)
qed

lemma find_duplicates_returns:
  assumes "\<And>s. \<not> isl (md5 s)"
  shows "\<exists>r. find_duplicates md5 cfg files = Inr r"
proof (cases "find_duplicates md5 cfg files")
  case (Inl e)
  from find_duplicates_raises_only_digest [OF Inl] obtain s where "md5 s = Inl e" ..
  with assms [of s] show ?thesis by simp
next
  case (Inr r)
  then show ?thesis by simp
qed

text \<open>
  Claim C7. \<^verbatim>\<open>analyze_repository_files\<close> returns a report for every digest, every
  configuration and every file map: the report of \<^verbatim>\<open>find_duplicates\<close> when that
  returns one, and when that raises \<open>e\<close> a report with \<^verbatim>\<open>porcentaje_global\<close>,
  \<^verbatim>\<open>bloques_encontrados\<close>, \<^verbatim>\<open>total_ocurrencias\<close> and \<^verbatim>\<open>lineas_duplicadas\<close> 0, no
  \<^verbatim>\<open>archivos_afectados\<close>, \<^verbatim>\<open>mayor_duplicacion\<close> \<^verbatim>\<open>None\<close> and \<^verbatim>\<open>str(e)\<close> as
  \<^verbatim>\<open>error\<close>.
\<close>

theorem analyze_repository_files_catches:
  "(case find_duplicates md5 cfg files of
      Inr r \<Rightarrow> analyze_repository_files md5 cfg files = r
    | Inl e \<Rightarrow>
        porcentaje_global (analyze_repository_files md5 cfg files) = 0 \<and>
        bloques_encontrados (analyze_repository_files md5 cfg files) = 0 \<and>
        total_ocurrencias (analyze_repository_files md5 cfg files) = 0 \<and>
        lineas_duplicadas (analyze_repository_files md5 cfg files) = 0 \<and>
        archivos_afectados (analyze_repository_files md5 cfg files) = {} \<and>
        mayor_duplicacion (analyze_repository_files md5 cfg files) = None \<and>
        error (analyze_repository_files md5 cfg files) = Some (message e))"
  by (simp add: analyze_repository_files_def split: sum.splits)

lemma failing_eval:
  "find_duplicates failing_digest five_lines dup_files = Inl (Exception ''surrogates not allowed'')"
  by code_simp

text \<open>
  Claim C7 on the sample files with a digest that raises: the report is the zeroed one
  and carries the message.
\<close>

theorem analyze_repository_files_catches_witness:
  "find_duplicates failing_digest five_lines dup_files = Inl (Exception ''surrogates not allowed'') \<and>
   porcentaje_global (analyze_repository_files failing_digest five_lines dup_files) = 0 \<and>
   bloques_encontrados (analyze_repository_files failing_digest five_lines dup_files) = 0 \<and>
   total_ocurrencias (analyze_repository_files failing_digest five_lines dup_files) = 0 \<and>
   lineas_duplicadas (analyze_repository_files failing_digest five_lines dup_files) = 0 \<and>
   archivos_afectados (analyze_repository_files failing_digest five_lines dup_files) = {} \<and>
   mayor_duplicacion (analyze_repository_files failing_digest five_lines dup_files) = None \<and>
   error (analyze_repository_files failing_digest five_lines dup_files) = Some ''surrogates not allowed''"
  using analyze_repository_files_catches [of failing_digest five_lines dup_files]
  by (simp add: failing_eval)

end
